theory Spec2Isabelle
  imports Complex_Main
begin

section \<open>Values and errors\<close>

text \<open>
  The engine of \<^verbatim>\<open>src/base/engine.py\<close> computes with numpy float64 arrays. The embedding
  idealises float64 arithmetic as exact arithmetic over the reals: rounding and overflow
  are outside the model. What stays inside is the one undefined result the recurrence can
  produce in exact arithmetic: \<^verbatim>\<open>np.sqrt\<close> of a negative number is NaN, and NaN spreads
  through every later operation. A float is therefore a \<open>real option\<close>, with \<open>None\<close> for NaN.
\<close>

datatype error =
    ValueError string
  | KeyError string
  | IndexError string
  | LinAlgError string
  | TypingError string
  | OverflowError string

type_synonym fl = "real option"

fun fl_mul :: "fl \<Rightarrow> fl \<Rightarrow> fl" where
  "fl_mul (Some x) (Some y) = Some (x * y)"
| "fl_mul _ _ = None"

fun fl_add :: "fl \<Rightarrow> fl \<Rightarrow> fl" where
  "fl_add (Some x) (Some y) = Some (x + y)"
| "fl_add _ _ = None"

fun np_exp :: "fl \<Rightarrow> fl" where
  "np_exp (Some x) = Some (exp x)"
| "np_exp None = None"

definition np_sqrt :: "real \<Rightarrow> fl" where
  "np_sqrt t = (if t < 0 then None else Some (sqrt t))"

text \<open>
  An elementwise operation on two one-dimensional arrays follows numpy's broadcasting:
  equal lengths pair up, a length-one array is stretched, anything else is an error.
\<close>

definition broadcast :: "('a \<Rightarrow> 'b \<Rightarrow> 'c) \<Rightarrow> 'a list \<Rightarrow> 'b list \<Rightarrow> error + 'c list" where
  "broadcast f xs ys =
     (if length xs = length ys then Inr (map2 f xs ys)
      else if length xs = 1 then Inr (map (f (hd xs)) ys)
      else if length ys = 1 then Inr (map (\<lambda>x. f x (hd ys)) xs)
      else Inl (ValueError ''operands could not be broadcast together''))"

text \<open>
  A two-dimensional array is the list of its rows. \<^verbatim>\<open>epsilon[:, i]\<close> reads column \<open>i\<close>;
  the read is in range when every row has more than \<open>i\<close> entries.
\<close>

definition column :: "real list list \<Rightarrow> nat \<Rightarrow> error + real list" where
  "column m i =
     (if list_all (\<lambda>row. i < length row) m then Inr (map (\<lambda>row. row ! i) m)
      else Inl (IndexError ''index out of bounds''))"

section \<open>The path evolver\<close>

text \<open>
  One pass of the loop body of \<^verbatim>\<open>_fast_sim_loop_geo_brownian\<close> (lines 14 to 16):
  \<^verbatim>\<open>s_array * np.exp((r - np.power(sigma_array, 2) / 2) * t
                       + sigma_array * epsilon_current * np.sqrt(t))\<close>
\<close>

definition gbm_step ::
  "fl list \<Rightarrow> real list \<Rightarrow> real \<Rightarrow> real \<Rightarrow> real list \<Rightarrow> error + fl list" where
  "gbm_step s_array sigma_array r t epsilon_current =
     (let drift = map (\<lambda>s. Some ((r - s ^ 2 / 2) * t)) sigma_array in
      case broadcast (*) sigma_array epsilon_current of
        Inl e \<Rightarrow> Inl e
      | Inr se \<Rightarrow>
          (let diffusion = map (\<lambda>v. fl_mul (Some v) (np_sqrt t)) se in
           case broadcast fl_add drift diffusion of
             Inl e \<Rightarrow> Inl e
           | Inr expo \<Rightarrow> broadcast fl_mul s_array (map np_exp expo)))"

text \<open>
  The loop over \<^verbatim>\<open>zip(t_diff, range(t_diff.shape[0]))\<close>, with the running price vector
  \<open>s_array\<close> and the list \<open>prc\<close> that each pass appends to.
\<close>

fun sim_loop ::
  "(real \<times> nat) list \<Rightarrow> real list \<Rightarrow> real \<Rightarrow> real list list \<Rightarrow> fl list \<Rightarrow> fl list list
     \<Rightarrow> error + fl list list" where
  "sim_loop [] sigma_array r epsilon s_array prc = Inr prc"
| "sim_loop ((t, i) # rest) sigma_array r epsilon s_array prc =
     (case column epsilon i of
        Inl e \<Rightarrow> Inl e
      | Inr epsilon_current \<Rightarrow>
          (case gbm_step s_array sigma_array r t epsilon_current of
             Inl e \<Rightarrow> Inl e
           | Inr s_new \<Rightarrow> sim_loop rest sigma_array r epsilon s_new (prc @ [s_new])))"

definition fast_sim_loop_geo_brownian ::
  "real \<Rightarrow> nat \<Rightarrow> real list \<Rightarrow> real list \<Rightarrow> real \<Rightarrow> real list list \<Rightarrow> error + fl list list" where
  "fast_sim_loop_geo_brownian s_0 n_dim t_diff sigma_array r epsilon =
     sim_loop (zip t_diff [0..<length t_diff]) sigma_array r epsilon
       (replicate n_dim (Some s_0)) []"

section \<open>Python values and the engine object\<close>

text \<open>
  The keyword arguments are a dictionary from names to Python values. The values the
  embedding covers: a number (\<^verbatim>\<open>int\<close> or \<^verbatim>\<open>float\<close>), a list or a tuple of numbers, a
  two-dimensional \<^verbatim>\<open>numpy.ndarray\<close> and a \<^verbatim>\<open>numpy.matrix\<close>, both as the list of their rows.
\<close>

datatype pyval =
    PyFloat real
  | PyList "real list"
  | PyTuple "real list"
  | PyNdarray "real list list"
  | PyMatrix "real list list"

text \<open>
  The fields \<^verbatim>\<open>_method\<close>, \<^verbatim>\<open>_kwargs\<close>, \<^verbatim>\<open>_s_0\<close> and \<^verbatim>\<open>_n_dim\<close> of \<^verbatim>\<open>SimEngine\<close>. The two
  timing fields hold wall-clock readings and are left out.
\<close>

record sim_engine =
  self_method :: string
  self_kwargs :: "(string \<times> pyval) list"
  self_s_0 :: real
  self_n_dim :: "nat option"

definition full_methods :: "string list" where
  "full_methods = [''GeoBrownian'']"

definition full_kwarg_map :: "(string \<times> string list) list" where
  "full_kwarg_map = [(''GeoBrownian'', [''sigma'', ''r'', ''rho''])]"

text \<open>\<^verbatim>\<open>d[key]\<close> on a dictionary: the value, or \<^verbatim>\<open>KeyError(key)\<close>.\<close>

definition getitem :: "(string \<times> 'v) list \<Rightarrow> string \<Rightarrow> error + 'v" where
  "getitem d key = (case map_of d key of None \<Rightarrow> Inl (KeyError key) | Some v \<Rightarrow> Inr v)"

text \<open>
  \<^verbatim>\<open>SimEngine.__init__\<close> (lines 36 to 52). The loop over the keys raises at the first key
  that is not registered for the method; \<^verbatim>\<open>full_kwarg_map[method]\<close> is only read inside
  the loop.
\<close>

fun check_keys :: "string list \<Rightarrow> string \<Rightarrow> error + unit" where
  "check_keys [] method = Inr ()"
| "check_keys (key # keys) method =
     (case getitem full_kwarg_map method of
        Inl e \<Rightarrow> Inl e
      | Inr allowed \<Rightarrow>
          (if key \<in> set allowed then check_keys keys method
           else Inl (ValueError ''Illegal input of kwargs!'')))"

text \<open>
  The initial price is an \<^verbatim>\<open>int\<close> or a \<^verbatim>\<open>float\<close>, and line 48 stores \<^verbatim>\<open>float(s_0)\<close>. A float
  is stored as it is. An int is rounded to the nearest float64, 53 significant bits with
  ties to even, and \<^verbatim>\<open>float\<close> raises \<^verbatim>\<open>OverflowError\<close> when the rounded magnitude reaches
  \<open>2 ^ 1024\<close>.
\<close>

datatype py_number = Int_number int | Float_number real

fun bit_length :: "nat \<Rightarrow> nat" where
  "bit_length n = (if n = 0 then 0 else Suc (bit_length (n div 2)))"

declare bit_length.simps [simp del]

definition float_limit :: nat where
  "float_limit = 2 ^ 1024"

definition round_half_even :: "nat \<Rightarrow> nat \<Rightarrow> nat" where
  "round_half_even a q =
     (let d = a div q; m = a mod q
      in (if q < 2 * m then d + 1
          else if 2 * m = q then (if odd d then d + 1 else d)
          else d) * q)"

definition float_of_int :: "int \<Rightarrow> error + real" where
  "float_of_int i =
     (let a = nat \<bar>i\<bar>;
          rounded = round_half_even a (2 ^ (bit_length a - 53))
      in if float_limit \<le> rounded then
           Inl (OverflowError ''int too large to convert to float'')
         else Inr (if i < 0 then - real rounded else real rounded))"

fun py_float :: "py_number \<Rightarrow> error + real" where
  "py_float (Int_number i) = float_of_int i"
| "py_float (Float_number x) = Inr x"

definition SimEngine_init ::
  "string \<Rightarrow> py_number \<Rightarrow> (string \<times> pyval) list \<Rightarrow> error + sim_engine" where
  "SimEngine_init method s_0 kwargs =
     (if method \<in> set full_methods then
        (case check_keys (map fst kwargs) method of
           Inl e \<Rightarrow> Inl e
         | Inr u \<Rightarrow>
             (case py_float s_0 of
                Inl e \<Rightarrow> Inl e
              | Inr x \<Rightarrow>
                  Inr \<lparr>self_method = method, self_kwargs = kwargs, self_s_0 = x,
                       self_n_dim = None\<rparr>))
      else Inl (ValueError ''Illegal input of method!''))"

text \<open>The property \<^verbatim>\<open>n_dim\<close> (lines 62 to 70).\<close>

definition n_dim :: "sim_engine \<Rightarrow> error + nat" where
  "n_dim self =
     (if self_method self = ''GeoBrownian'' then
        (case getitem (self_kwargs self) ''sigma'' of
           Inl e \<Rightarrow> Inl e
         | Inr sigma \<Rightarrow> (case sigma of PyList xs \<Rightarrow> Inr (length xs) | _ \<Rightarrow> Inr 1))
      else Inl (ValueError []))"

section \<open>The numpy operations the engine calls\<close>

text \<open>\<^verbatim>\<open>np.diff(upper_t, prepend=0)\<close>: consecutive differences, the first one from 0.\<close>

fun diff_from :: "real \<Rightarrow> real list \<Rightarrow> real list" where
  "diff_from prev [] = []"
| "diff_from prev (t # ts) = (t - prev) # diff_from t ts"

definition np_diff_prepend0 :: "real list \<Rightarrow> real list" where
  "np_diff_prepend0 upper_t = diff_from 0 upper_t"

text \<open>
  \<^verbatim>\<open>np.array(sigma_raw if isinstance(sigma_raw, Iterable) else [sigma_raw, ])\<close>: a number
  becomes a one-element array, a list or tuple a one-dimensional array, an array or matrix
  stays two-dimensional.
\<close>

datatype ndarray = Array1 "real list" | Array2 "real list list"

fun np_array_sigma :: "pyval \<Rightarrow> ndarray" where
  "np_array_sigma (PyFloat v) = Array1 [v]"
| "np_array_sigma (PyList xs) = Array1 xs"
| "np_array_sigma (PyTuple xs) = Array1 xs"
| "np_array_sigma (PyNdarray m) = Array2 m"
| "np_array_sigma (PyMatrix m) = Array2 m"

definition shape0 :: "'a list list \<Rightarrow> nat" where
  "shape0 m = length m"

definition shape1 :: "'a list list \<Rightarrow> nat" where
  "shape1 m = (case m of [] \<Rightarrow> 0 | row # _ \<Rightarrow> length row)"

definition dot :: "real list \<Rightarrow> real list \<Rightarrow> real" where
  "dot xs ys = sum_list (map2 (*) xs ys)"

text \<open>
  \<^verbatim>\<open>np.linalg.cholesky\<close>: the lower-triangular factor \<open>L\<close> with \<open>L L\<^sup>T = a\<close>, computed row by
  row from the lower triangle of \<open>a\<close>. The routine raises \<^verbatim>\<open>LinAlgError\<close> when the array has
  fewer than two dimensions, when it is not square, and when a pivot is not positive.
  \<open>chol_entries a Ls j\<close> is the part of a row left of the diagonal, from the row \<open>a\<close> of the
  matrix and the rows \<open>Ls\<close> of the factor found so far.
\<close>

fun chol_entries :: "real list \<Rightarrow> real list list \<Rightarrow> nat \<Rightarrow> real list" where
  "chol_entries a Ls 0 = []"
| "chol_entries a Ls (Suc j) =
     (let ls = chol_entries a Ls j
      in ls @ [(a ! j - dot ls (take j (Ls ! j))) / (Ls ! j ! j)])"

fun chol_rows :: "real list list \<Rightarrow> nat \<Rightarrow> error + real list list" where
  "chol_rows A 0 = Inr []"
| "chol_rows A (Suc i) =
     (case chol_rows A i of
        Inl e \<Rightarrow> Inl e
      | Inr Ls \<Rightarrow>
          (let ls = chol_entries (A ! i) Ls i;
               d = A ! i ! i - dot ls ls
           in if d \<le> 0 then Inl (LinAlgError ''Matrix is not positive definite'')
              else Inr (Ls @ [ls @ sqrt d # replicate (length A - Suc i) 0])))"

definition is_square :: "real list list \<Rightarrow> bool" where
  "is_square m = list_all (\<lambda>row. length row = length m) m"

definition cholesky :: "real list list \<Rightarrow> error + real list list" where
  "cholesky A =
     (if is_square A then chol_rows A (length A)
      else Inl (LinAlgError ''Last 2 dimensions of the array must be square''))"

fun np_linalg_cholesky :: "pyval \<Rightarrow> error + real list list" where
  "np_linalg_cholesky (PyFloat v) =
     Inl (LinAlgError ''0-dimensional array given. Array must be at least two-dimensional'')"
| "np_linalg_cholesky (PyList xs) =
     Inl (LinAlgError ''1-dimensional array given. Array must be at least two-dimensional'')"
| "np_linalg_cholesky (PyTuple xs) =
     Inl (LinAlgError ''1-dimensional array given. Array must be at least two-dimensional'')"
| "np_linalg_cholesky (PyNdarray A) = cholesky A"
| "np_linalg_cholesky (PyMatrix A) = cholesky A"

text \<open>
  The random source is the stream of standard-normal draws still to come.
  \<^verbatim>\<open>np.random.normal(0, 1, [n, T])\<close> takes the next \<open>n * T\<close> of them, row by row.
\<close>

type_synonym rng = "nat \<Rightarrow> real"

definition np_random_normal :: "nat \<Rightarrow> nat \<Rightarrow> rng \<Rightarrow> real list list \<times> rng" where
  "np_random_normal n T g =
     (map (\<lambda>i. map (\<lambda>j. g (i * T + j)) [0..<T]) [0..<n], (\<lambda>k. g (k + n * T)))"

text \<open>
  \<^verbatim>\<open>upper_r * x\<close> (line 113): \<open>upper_r\<close> is the integer 1, or the \<^verbatim>\<open>numpy.matrix\<close> the
  factorisation returned, whose \<^verbatim>\<open>*\<close> is the matrix product.
\<close>

datatype factor = Scalar_factor real | Matrix_factor "real list list"

definition mat_mul :: "real list list \<Rightarrow> real list list \<Rightarrow> error + real list list" where
  "mat_mul a b =
     (if list_all (\<lambda>row. length row = length b) a then
        Inr (map (\<lambda>row. map (\<lambda>j. dot row (map (\<lambda>brow. brow ! j) b)) [0..<shape1 b]) a)
      else Inl (ValueError ''shapes not aligned''))"

fun times_factor :: "factor \<Rightarrow> real list list \<Rightarrow> error + real list list" where
  "times_factor (Scalar_factor c) x = Inr (map (map ((*) c)) x)"
| "times_factor (Matrix_factor l) x = mat_mul l x"

section \<open>The simulate call\<close>

text \<open>\<^verbatim>\<open>upper_t\<close> is a number or a sequence of numbers (line 88).\<close>

datatype times = Scalar real | Seq "real list"

fun as_iterable :: "times \<Rightarrow> real list" where
  "as_iterable (Scalar v) = [v]"
| "as_iterable (Seq vs) = vs"

text \<open>
  Lines 100 to 110: the correlation factor. The factorisation runs first, then the type
  check, then the dimension check.
\<close>

definition correlation_factor :: "sim_engine \<Rightarrow> error + factor" where
  "correlation_factor self =
     (case n_dim self of
        Inl e \<Rightarrow> Inl e
      | Inr n \<Rightarrow>
          (if 1 < n then
             (case getitem (self_kwargs self) ''rho'' of
                Inl e \<Rightarrow> Inl e
              | Inr rho \<Rightarrow>
                  (case np_linalg_cholesky rho of
                     Inl e \<Rightarrow> Inl e
                   | Inr l \<Rightarrow>
                       (case rho of
                          PyMatrix m \<Rightarrow>
                            (if shape0 m = shape1 m then
                               (if shape0 m = n then Inr (Matrix_factor l)
                                else Inl (ValueError ''Illegal input dimension of rho''))
                             else Inl (ValueError ''Illegal input dimension of rho''))
                        | _ \<Rightarrow> Inl (ValueError ''Illegal input type of rho''))))
           else Inr (Scalar_factor 1)))"

text \<open>
  Lines 93 to 110, everything the call does before it draws random numbers: the
  parameters are read, the time deltas and the correlation factor computed.
\<close>

record prepared =
  st_sigma_array :: ndarray
  st_r :: pyval
  st_t_diff :: "real list"
  st_upper_r :: factor

definition prepare :: "sim_engine \<Rightarrow> real list \<Rightarrow> error + prepared" where
  "prepare self upper_t =
     (case getitem (self_kwargs self) ''sigma'' of
        Inl e \<Rightarrow> Inl e
      | Inr sigma_raw \<Rightarrow>
          (case getitem (self_kwargs self) ''r'' of
             Inl e \<Rightarrow> Inl e
           | Inr r \<Rightarrow>
               (case correlation_factor self of
                  Inl e \<Rightarrow> Inl e
                | Inr f \<Rightarrow>
                    Inr \<lparr>st_sigma_array = np_array_sigma sigma_raw, st_r = r,
                         st_t_diff = np_diff_prepend0 upper_t, st_upper_r = f\<rparr>)))"

text \<open>
  Lines 112 and 113: the draws \<open>x\<close> and the shocks \<open>epsilon\<close>, with the random source after
  the draw.
\<close>

definition draw_shocks :: "nat \<Rightarrow> prepared \<Rightarrow> rng \<Rightarrow> (error + real list list) \<times> rng" where
  "draw_shocks n st g =
     (case np_random_normal n (length (st_t_diff st)) g of
        (x, g') \<Rightarrow> (times_factor (st_upper_r st) x, g'))"

text \<open>
  Line 118: the call of the compiled loop. numba types the arguments when the call is
  made: it compiles the loop for a float \<open>r\<close> and a one-dimensional \<open>sigma_array\<close>, and
  rejects the other values of the embedding with a typing error.
\<close>

fun jit_call ::
  "real \<Rightarrow> nat \<Rightarrow> real list \<Rightarrow> ndarray \<Rightarrow> pyval \<Rightarrow> real list list \<Rightarrow> error + fl list list" where
  "jit_call s_0 n td (Array1 sigma) (PyFloat r) epsilon =
     fast_sim_loop_geo_brownian s_0 n td sigma r epsilon"
| "jit_call s_0 n td sg rv epsilon = Inl (TypingError ''Failed in nopython mode pipeline'')"

text \<open>
  \<^verbatim>\<open>SimEngine.prc_generator\<close> (lines 86 to 125). The result is the value returned or the
  exception raised, together with the random source as the call leaves it.
\<close>

definition prc_generator :: "sim_engine \<Rightarrow> times \<Rightarrow> rng \<Rightarrow> (error + fl list list) \<times> rng" where
  "prc_generator self upper_t g =
     (if self_method self = ''GeoBrownian'' then
        (case prepare self (as_iterable upper_t) of
           Inl e \<Rightarrow> (Inl e, g)
         | Inr st \<Rightarrow>
             (case n_dim self of
                Inl e \<Rightarrow> (Inl e, g)
              | Inr n \<Rightarrow>
                  (case draw_shocks n st g of
                     (Inl e, g') \<Rightarrow> (Inl e, g')
                   | (Inr epsilon, g') \<Rightarrow>
                       (jit_call (self_s_0 self) n (st_t_diff st) (st_sigma_array st) (st_r st) epsilon,
                        g'))))
      else (Inl (ValueError []), g))"

section \<open>Symmetric and positive-semidefinite matrices\<close>

text \<open>
  The vocabulary of the claims about the correlation matrix: a matrix is symmetric when
  it is square and equal to its transpose, and positive-semidefinite when its quadratic
  form is nowhere negative.
\<close>

definition symmetric :: "real list list \<Rightarrow> bool" where
  "symmetric A =
     (is_square A \<and>
      list_all (\<lambda>i. list_all (\<lambda>j. A ! i ! j = A ! j ! i) [0..<length A]) [0..<length A])"

definition quad_form :: "real list list \<Rightarrow> real list \<Rightarrow> real" where
  "quad_form A x = (\<Sum>i<length A. \<Sum>j<length A. x ! i * A ! i ! j * x ! j)"

definition positive_semidefinite :: "real list list \<Rightarrow> bool" where
  "positive_semidefinite A = (\<forall>x. length x = length A \<longrightarrow> 0 \<le> quad_form A x)"

section \<open>Properties of the path evolver\<close>

lemma broadcast_same:
  "length xs = length ys \<Longrightarrow> broadcast f xs ys = Inr (map (\<lambda>j. f (xs ! j) (ys ! j)) [0..<length xs])"
  unfolding broadcast_def by (auto intro!: nth_equalityI)

lemma column_nth:
  "list_all (\<lambda>row. i < length row) m \<Longrightarrow>
     column m i = Inr (map (\<lambda>j. m ! j ! i) [0..<length m])"
  unfolding column_def by (auto intro!: nth_equalityI)

lemma gbm_step_same:
  assumes "length s = n" "length sigma = n" "length ec = n"
  shows "gbm_step s sigma r t ec =
           Inr (map (\<lambda>j. fl_mul (s ! j)
                  (np_exp (fl_add (Some ((r - (sigma ! j) ^ 2 / 2) * t))
                     (fl_mul (Some (sigma ! j * ec ! j)) (np_sqrt t))))) [0..<n])"
  using assms unfolding gbm_step_def
  by (simp add: broadcast_same Let_def)

lemma sim_loop_rows:
  assumes "length sigma = n" "length eps = n" "length s = n"
    "list_all (\<lambda>p. list_all (\<lambda>row. snd p < length row) eps) ps"
  shows "\<exists>out. sim_loop ps sigma r eps s prc = Inr (prc @ out) \<and> length out = length ps \<and>
     (\<forall>k<length ps. out ! k =
        map (\<lambda>j. fl_mul ((if k = 0 then s else out ! (k - 1)) ! j)
               (np_exp (fl_add (Some ((r - (sigma ! j) ^ 2 / 2) * fst (ps ! k)))
                  (fl_mul (Some (sigma ! j * eps ! j ! snd (ps ! k))) (np_sqrt (fst (ps ! k)))))))
          [0..<n])"
  using assms
proof (induction ps arbitrary: s prc)
  case Nil
  then show ?case by simp
next
  case (Cons p ps)
  obtain t i where p: "p = (t, i)" by (cases p)
  let ?s' = "map (\<lambda>j. fl_mul (s ! j)
               (np_exp (fl_add (Some ((r - (sigma ! j) ^ 2 / 2) * t))
                  (fl_mul (Some (sigma ! j * eps ! j ! i)) (np_sqrt t))))) [0..<n]"
  have col: "column eps i = Inr (map (\<lambda>j. eps ! j ! i) [0..<n])"
    using Cons.prems p by (simp add: column_nth)
  have step: "gbm_step s sigma r t (map (\<lambda>j. eps ! j ! i) [0..<n]) = Inr ?s'"
    using Cons.prems by (simp add: gbm_step_same [where n = n])
  have len: "length ?s' = n" by simp
  from Cons.IH [OF Cons.prems(1) Cons.prems(2) len, of "prc @ [?s']"] Cons.prems(4)
  obtain out where out: "sim_loop ps sigma r eps ?s' (prc @ [?s']) = Inr ((prc @ [?s']) @ out)"
    "length out = length ps"
    "\<forall>k<length ps. out ! k =
        map (\<lambda>j. fl_mul ((if k = 0 then ?s' else out ! (k - 1)) ! j)
               (np_exp (fl_add (Some ((r - (sigma ! j) ^ 2 / 2) * fst (ps ! k)))
                  (fl_mul (Some (sigma ! j * eps ! j ! snd (ps ! k))) (np_sqrt (fst (ps ! k)))))))
          [0..<n]"
    by auto
  have run: "sim_loop (p # ps) sigma r eps s prc = Inr (prc @ (?s' # out))"
    using p col step out(1) by simp
  have "\<forall>k<length (p # ps). (?s' # out) ! k =
        map (\<lambda>j. fl_mul ((if k = 0 then s else (?s' # out) ! (k - 1)) ! j)
               (np_exp (fl_add (Some ((r - (sigma ! j) ^ 2 / 2) * fst ((p # ps) ! k)))
                  (fl_mul (Some (sigma ! j * eps ! j ! snd ((p # ps) ! k))) (np_sqrt (fst ((p # ps) ! k)))))))
          [0..<n]"
  proof (intro allI impI)
    fix k assume k: "k < length (p # ps)"
    show "(?s' # out) ! k =
        map (\<lambda>j. fl_mul ((if k = 0 then s else (?s' # out) ! (k - 1)) ! j)
               (np_exp (fl_add (Some ((r - (sigma ! j) ^ 2 / 2) * fst ((p # ps) ! k)))
                  (fl_mul (Some (sigma ! j * eps ! j ! snd ((p # ps) ! k))) (np_sqrt (fst ((p # ps) ! k)))))))
          [0..<n]"
    proof (cases k)
      case 0
      then show ?thesis using p by simp
    next
      case (Suc k')
      then have "k' < length ps" using k by simp
      with out(3) have "out ! k' =
        map (\<lambda>j. fl_mul ((if k' = 0 then ?s' else out ! (k' - 1)) ! j)
               (np_exp (fl_add (Some ((r - (sigma ! j) ^ 2 / 2) * fst (ps ! k')))
                  (fl_mul (Some (sigma ! j * eps ! j ! snd (ps ! k'))) (np_sqrt (fst (ps ! k')))))))
          [0..<n]" by blast
      then show ?thesis using Suc by (cases k') simp_all
    qed
  qed
  with run out(2) show ?case by (intro exI [of _ "?s' # out"]) simp
qed

text \<open>
  The loop returns one vector per time delta, each the previous one times the growth
  factors of the step.
\<close>

lemma evolver_rows:
  assumes "length sigma = n" and "length epsilon = n"
    and "list_all (\<lambda>row. length row = length td) epsilon"
  shows "\<exists>prc. fast_sim_loop_geo_brownian s0 n td sigma r epsilon = Inr prc \<and>
     length prc = length td \<and>
     (\<forall>t<length td. prc ! t =
        map (\<lambda>j. fl_mul ((if t = 0 then replicate n (Some s0) else prc ! (t - 1)) ! j)
               (np_exp (fl_add (Some ((r - (sigma ! j) ^ 2 / 2) * td ! t))
                  (fl_mul (Some (sigma ! j * epsilon ! j ! t)) (np_sqrt (td ! t))))))
          [0..<n])"
proof -
  let ?ps = "zip td [0..<length td]"
  have inr: "list_all (\<lambda>p. list_all (\<lambda>row. snd p < length row) epsilon) ?ps"
    using assms(3) by (auto simp: list_all_iff dest!: set_zip_rightD)
  have nth: "\<And>k. k < length td \<Longrightarrow> ?ps ! k = (td ! k, k)" by simp
  from sim_loop_rows [OF assms(1) assms(2) _ inr, of "replicate n (Some s0)" r "[]"]
  obtain out where out: "sim_loop ?ps sigma r epsilon (replicate n (Some s0)) [] = Inr out"
    "length out = length td"
    "\<forall>k<length ?ps. out ! k =
        map (\<lambda>j. fl_mul ((if k = 0 then replicate n (Some s0) else out ! (k - 1)) ! j)
               (np_exp (fl_add (Some ((r - (sigma ! j) ^ 2 / 2) * fst (?ps ! k)))
                  (fl_mul (Some (sigma ! j * epsilon ! j ! snd (?ps ! k))) (np_sqrt (fst (?ps ! k)))))))
          [0..<n]"
    by auto
  show ?thesis
    unfolding fast_sim_loop_geo_brownian_def
    using out by (intro exI [of _ out]) (simp add: nth)
qed

text \<open>
  Claim C1. When \<open>sigma\<close> has \<open>n\<close> entries and \<open>epsilon\<close> is an \<open>n\<close> by \<open>T\<close> matrix, \<open>T\<close> the
  number of time deltas, the path evolver returns \<open>T\<close> price vectors, and the vector at step
  \<open>t\<close> is the vector at step \<open>t - 1\<close> (for \<open>t = 0\<close> the vector with every component \<open>s0\<close>)
  multiplied elementwise by \<open>exp ((r - sigma\<^sup>2 / 2) * dt + sigma * epsilon * sqrt dt)\<close>, with the
  delta \<open>dt\<close> of step \<open>t\<close> and column \<open>t\<close> of the shocks.
\<close>

theorem C1_recurrence:
  assumes "length sigma = n" and "length epsilon = n"
    and "list_all (\<lambda>row. length row = length td) epsilon"
  shows "\<exists>prc. fast_sim_loop_geo_brownian s0 n td sigma r epsilon = Inr prc \<and>
     length prc = length td \<and>
     (\<forall>t<length td. prc ! t =
        map (\<lambda>j. fl_mul ((if t = 0 then replicate n (Some s0) else prc ! (t - 1)) ! j)
               (np_exp (fl_add (Some ((r - (sigma ! j) ^ 2 / 2) * td ! t))
                  (fl_mul (Some (sigma ! j * epsilon ! j ! t)) (np_sqrt (td ! t))))))
          [0..<n])"
  using assms by (rule evolver_rows)

text \<open>The claim at two assets and two steps.\<close>

theorem C1_recurrence_witness:
  "length [0, 1 :: real] = 2 \<and> length [[0, 1], [1, 0 :: real]] = 2 \<and>
   list_all (\<lambda>row. length row = length [1, 4 :: real]) [[0, 1], [1, 0 :: real]] \<and>
   (\<exists>prc. fast_sim_loop_geo_brownian 100 2 [1, 4] [0, 1] 0 [[0, 1], [1, 0]] = Inr prc \<and>
      length prc = 2 \<and>
      prc ! 0 = [Some 100, Some (100 * exp (1 / 2))] \<and>
      prc ! 1 = [fl_mul (prc ! 0 ! 0) (Some 1), fl_mul (prc ! 0 ! 1) (Some (exp (- 2)))])"
proof -
  have h1: "length [0, 1 :: real] = 2" by simp
  have h2: "length [[0, 1], [1, 0 :: real]] = 2" by simp
  have h3: "list_all (\<lambda>row. length row = length [1, 4 :: real]) [[0, 1], [1, 0 :: real]]" by simp
  from C1_recurrence [OF h1 h2 h3, of 100 0]
  obtain prc where prc: "fast_sim_loop_geo_brownian 100 2 [1, 4] [0, 1] 0 [[0, 1], [1, 0]] = Inr prc"
    "length prc = 2"
    "\<forall>t<length [1, 4 :: real]. prc ! t =
        map (\<lambda>j. fl_mul ((if t = 0 then replicate 2 (Some 100) else prc ! (t - 1)) ! j)
               (np_exp (fl_add (Some ((0 - ([0, 1] ! j) ^ 2 / 2) * [1, 4] ! t))
                  (fl_mul (Some ([0, 1] ! j * [[0, 1], [1, 0]] ! j ! t)) (np_sqrt ([1, 4] ! t))))))
          [0..<2]"
    by auto
  from prc(3) have a: "prc ! 0 = [Some 100, Some (100 * exp (1 / 2))]"
    by (simp add: np_sqrt_def upt_conv_Cons numeral_2_eq_2)
  from prc(3) have b: "prc ! 1 = [fl_mul (prc ! 0 ! 0) (Some 1), fl_mul (prc ! 0 ! 1) (Some (exp (- 2)))]"
    by (simp add: np_sqrt_def upt_conv_Cons numeral_2_eq_2)
  from h1 h2 h3 prc(1,2) a b show ?thesis by blast
qed

text \<open>
  Construction: for the method \<^verbatim>\<open>GeoBrownian\<close> the key check passes exactly when every key is
  one of \<^verbatim>\<open>sigma\<close>, \<^verbatim>\<open>r\<close>, \<^verbatim>\<open>rho\<close>.
\<close>

lemma check_keys_GeoBrownian:
  "check_keys keys ''GeoBrownian'' =
     (if list_all (\<lambda>key. key \<in> set [''sigma'', ''r'', ''rho'']) keys then Inr ()
      else Inl (ValueError ''Illegal input of kwargs!''))"
  by (induction keys) (simp_all add: getitem_def full_kwarg_map_def)

lemma SimEngine_init_GeoBrownian:
  "list_all (\<lambda>key. key \<in> set [''sigma'', ''r'', ''rho'']) (map fst kwargs) \<Longrightarrow>
   SimEngine_init ''GeoBrownian'' s0 kwargs =
     (case py_float s0 of
        Inl e \<Rightarrow> Inl e
      | Inr x \<Rightarrow>
          Inr \<lparr>self_method = ''GeoBrownian'', self_kwargs = kwargs, self_s_0 = x,
               self_n_dim = None\<rparr>)"
  by (simp add: SimEngine_init_def full_methods_def check_keys_GeoBrownian)

text \<open>
  The conversion of line 48: an int below \<open>2 ^ 53\<close> in magnitude is stored exactly,
  \<open>2 ^ 53 + 1\<close> is stored as \<open>2 ^ 53\<close>, and a magnitude of \<open>2 ^ 1024\<close> raises \<^verbatim>\<open>OverflowError\<close>.
\<close>

lemma bit_length_zero: "bit_length 0 = 0"
  by (subst bit_length.simps) simp

lemma bit_length_pos: "0 < n \<Longrightarrow> bit_length n = Suc (bit_length (n div 2))"
  by (subst bit_length.simps) simp

lemma bit_length_le: "n < 2 ^ k \<Longrightarrow> bit_length n \<le> k"
proof (induction k arbitrary: n)
  case 0
  then show ?case by (simp add: bit_length_zero)
next
  case (Suc k)
  show ?case
  proof (cases "n = 0")
    case True
    then show ?thesis by (simp add: bit_length_zero)
  next
    case False
    from Suc.prems have "n div 2 < 2 ^ k" by simp
    then have "bit_length (n div 2) \<le> k" by (rule Suc.IH)
    with False show ?thesis by (simp add: bit_length_pos)
  qed
qed

lemma round_half_even_one: "round_half_even a 1 = a"
  by (simp add: round_half_even_def)

lemma float_limit_above: "a < 2 ^ 53 \<Longrightarrow> \<not> float_limit \<le> a"
proof -
  assume "a < 2 ^ 53"
  also have "(2::nat) ^ 53 \<le> 2 ^ 1024" by (rule power_increasing) simp_all
  finally show ?thesis by (simp only: float_limit_def not_le)
qed

lemma float_of_int_exact:
  assumes "\<bar>i\<bar> < 2 ^ 53"
  shows "float_of_int i = Inr (real_of_int i)"
proof -
  from assms have a: "nat \<bar>i\<bar> < 2 ^ 53"
    by (simp only: nat_less_iff abs_ge_zero of_nat_power of_nat_numeral)
  then have "bit_length (nat \<bar>i\<bar>) \<le> 53" by (rule bit_length_le)
  then have sh: "bit_length (nat \<bar>i\<bar>) - 53 = 0" by simp
  have val: "(if i < 0 then - real (nat \<bar>i\<bar>) else real (nat \<bar>i\<bar>)) = real_of_int i"
    by simp
  show ?thesis
    unfolding float_of_int_def Let_def sh power_0 round_half_even_one
    using float_limit_above [OF a] val by (simp only: if_False)
qed

lemma float_of_int_100: "float_of_int 100 = Inr 100"
  using float_of_int_exact [of 100] by simp

lemma float_of_int_0: "float_of_int 0 = Inr 0"
  using float_of_int_exact [of 0] by simp

lemma float_of_int_minus_5: "float_of_int (- 5) = Inr (- 5)"
  using float_of_int_exact [of "- 5"] by simp


lemma bit_length_power: "bit_length (2 ^ k) = Suc k"
  by (induction k) (simp_all add: bit_length_pos bit_length_zero)

lemma bit_length_Suc_power: "bit_length (Suc (2 ^ Suc k)) = Suc (Suc k)"
proof -
  have "Suc (2 ^ Suc k) div 2 = 2 ^ k" by simp
  then show ?thesis by (simp add: bit_length_pos bit_length_power del: power_Suc)
qed

lemma round_half_even_tie: "round_half_even (Suc (2 ^ Suc (Suc k))) 2 = 2 ^ Suc (Suc k)"
proof -
  have d: "Suc (2 ^ Suc (Suc k)) div 2 = 2 ^ Suc k" by simp
  have "odd (Suc (2 ^ Suc (Suc k)))" by simp
  then have m: "Suc (2 ^ Suc (Suc k)) mod 2 = 1" by (simp only: odd_iff_mod_2_eq_one)
  show ?thesis
    unfolding round_half_even_def Let_def d m by simp
qed

lemma round_half_even_power: "round_half_even (2 ^ (j + k)) (2 ^ k) = 2 ^ (j + k)"
proof -
  have d: "(2::nat) ^ (j + k) div 2 ^ k = 2 ^ j" by (simp add: power_add)
  have m: "(2::nat) ^ (j + k) mod 2 ^ k = 0" by (simp add: power_add)
  show ?thesis
    unfolding round_half_even_def Let_def d m by (simp add: power_add)
qed

lemma float_of_int_rounds: "float_of_int (2 ^ 53 + 1) = Inr (2 ^ 53)"
proof -
  have k: "(53::nat) = Suc (Suc 51)" by simp
  have n: "nat \<bar>2 ^ 53 + 1 :: int\<bar> = Suc (2 ^ 53)"
    by simp
  have b: "bit_length (Suc (2 ^ 53)) - 53 = 1"
    unfolding k bit_length_Suc_power by simp
  have r: "round_half_even (Suc (2 ^ 53)) (2 ^ 1) = 2 ^ 53"
    unfolding k power_one_right round_half_even_tie ..
  have lim: "\<not> float_limit \<le> 2 ^ 53"
    unfolding float_limit_def not_le by (rule power_strict_increasing) simp_all
  have pos: "\<not> (2 ^ 53 + 1 :: int) < 0"
    unfolding not_less by (rule add_nonneg_nonneg) simp_all
  show ?thesis
    unfolding float_of_int_def Let_def n b r using lim pos by (simp only: if_False of_nat_power of_nat_numeral)
qed

lemma float_of_int_overflows:
  "float_of_int (- (2 ^ 1024)) = Inl (OverflowError ''int too large to convert to float'')"
proof -
  have n: "nat \<bar>- (2 ^ 1024) :: int\<bar> = 2 ^ 1024"
    by (simp only: abs_minus_cancel abs_of_nonneg zero_le_numeral zero_le_power nat_power_eq nat_numeral)
  have b: "bit_length (2 ^ 1024) - 53 = 972"
    unfolding bit_length_power by simp
  have r: "round_half_even (2 ^ 1024) (2 ^ 972) = 2 ^ 1024"
    using round_half_even_power [of 52 972] by (simp only: numeral_plus_numeral semiring_norm)
  show ?thesis
    unfolding float_of_int_def Let_def n b r by (simp only: float_limit_def order_refl if_True)
qed

lemma getitem_Some: "map_of d key = Some v \<Longrightarrow> getitem d key = Inr v"
  by (simp add: getitem_def)

lemma getitem_None: "map_of d key = None \<Longrightarrow> getitem d key = Inl (KeyError key)"
  by (simp add: getitem_def)


lemma n_dim_scalar:
  "self_method self = ''GeoBrownian'' \<Longrightarrow> map_of (self_kwargs self) ''sigma'' = Some (PyFloat v) \<Longrightarrow>
   n_dim self = Inr 1"
  by (simp add: n_dim_def getitem_def)

lemma n_dim_pure: "n_dim (self\<lparr>self_n_dim := c\<rparr>) = n_dim self"
  by (simp add: n_dim_def)

text \<open>
  Claim C3. The claim gives a sequence-valued \<open>sigma\<close> (list, tuple, array) the dimension
  count of its length. The property tests \<^verbatim>\<open>isinstance(..., list)\<close> only: an engine built
  with the two-element tuple \<^verbatim>\<open>(0.2, 0.3)\<close> reports the dimension count 1, not 2. The list
  and scalar cases, and the recomputation on every query, are \<open>n_dim_list\<close>,
  \<open>n_dim_scalar\<close> and \<open>n_dim_pure\<close> above.
\<close>

theorem C3_tuple_sigma_counts_one:
  "SimEngine_init ''GeoBrownian'' (Int_number 100)
       [(''sigma'', PyTuple [2 / 10, 3 / 10]), (''r'', PyFloat (3 / 100))]
     = Inr \<lparr>self_method = ''GeoBrownian'',
            self_kwargs = [(''sigma'', PyTuple [2 / 10, 3 / 10]), (''r'', PyFloat (3 / 100))],
            self_s_0 = 100, self_n_dim = None\<rparr> \<and>
   n_dim \<lparr>self_method = ''GeoBrownian'',
          self_kwargs = [(''sigma'', PyTuple [2 / 10, 3 / 10]), (''r'', PyFloat (3 / 100))],
          self_s_0 = 100, self_n_dim = None\<rparr> = Inr 1 \<and>
   length [2 / 10, 3 / 10 :: real] = 2"
  by (simp add: SimEngine_init_GeoBrownian float_of_int_100 n_dim_def getitem_def)

text \<open>
  Claim C4 says a zero or negative initial price is rejected. Construction accepts both:
  the initial price 0 and the initial price -5 each give an engine.
\<close>

theorem C4_nonpositive_price_accepted:
  "SimEngine_init ''GeoBrownian'' (Int_number 0)
     [(''sigma'', PyFloat (2 / 10)), (''r'', PyFloat (3 / 100))]
     = Inr \<lparr>self_method = ''GeoBrownian'',
            self_kwargs = [(''sigma'', PyFloat (2 / 10)), (''r'', PyFloat (3 / 100))],
            self_s_0 = 0, self_n_dim = None\<rparr> \<and>
   SimEngine_init ''GeoBrownian'' (Int_number (- 5))
     [(''sigma'', PyFloat (2 / 10)), (''r'', PyFloat (3 / 100))]
     = Inr \<lparr>self_method = ''GeoBrownian'',
            self_kwargs = [(''sigma'', PyFloat (2 / 10)), (''r'', PyFloat (3 / 100))],
            self_s_0 = - 5, self_n_dim = None\<rparr>"
  by (simp add: SimEngine_init_GeoBrownian float_of_int_0 float_of_int_minus_5)

text \<open>
  Claim C4, amended. A zero or negative initial price is accepted: with the method
  \<^verbatim>\<open>GeoBrownian\<close> and keys among \<^verbatim>\<open>sigma\<close>, \<^verbatim>\<open>r\<close>, \<^verbatim>\<open>rho\<close>, construction succeeds for every
  float \<open>s_0 \<le> 0\<close> and for every int \<open>s_0\<close> with \<open>- 2 ^ 53 < s_0 \<le> 0\<close>, and stores
  \<^verbatim>\<open>float(s_0)\<close>, which is the price itself.
\<close>

theorem C4_zero_or_negative_price_accepted:
  assumes "set (map fst kwargs) \<subseteq> {''sigma'', ''r'', ''rho''}"
    and "(s_0 = Float_number v \<and> v \<le> 0) \<or>
         (s_0 = Int_number i \<and> i \<le> 0 \<and> - (2 ^ 53) < i \<and> v = real_of_int i)"
  shows "SimEngine_init ''GeoBrownian'' s_0 kwargs =
           Inr \<lparr>self_method = ''GeoBrownian'', self_kwargs = kwargs, self_s_0 = v,
                self_n_dim = None\<rparr>"
proof -
  from assms(1) have keys: "list_all (\<lambda>key. key \<in> set [''sigma'', ''r'', ''rho'']) (map fst kwargs)"
    by (auto simp: list_all_iff)
  from assms(2) have "py_float s_0 = Inr v"
  proof
    assume "s_0 = Float_number v \<and> v \<le> 0"
    then show ?thesis by simp
  next
    assume int: "s_0 = Int_number i \<and> i \<le> 0 \<and> - (2 ^ 53) < i \<and> v = real_of_int i"
    then have "\<bar>i\<bar> < 2 ^ 53" by simp
    then have "float_of_int i = Inr (real_of_int i)" by (rule float_of_int_exact)
    with int show ?thesis by simp
  qed
  with keys show ?thesis by (simp add: SimEngine_init_GeoBrownian)
qed

text \<open>
  The amended claim at the int -5 and at the float 0.
\<close>

theorem C4_zero_or_negative_price_accepted_witness:
  "set (map fst [(''sigma'', PyFloat (2 / 10)), (''r'', PyFloat (3 / 100))])
     \<subseteq> {''sigma'', ''r'', ''rho''} \<and>
   (- 5 :: int) \<le> 0 \<and> - (2 ^ 53) < (- 5 :: int) \<and>
   SimEngine_init ''GeoBrownian'' (Int_number (- 5))
     [(''sigma'', PyFloat (2 / 10)), (''r'', PyFloat (3 / 100))]
     = Inr \<lparr>self_method = ''GeoBrownian'',
            self_kwargs = [(''sigma'', PyFloat (2 / 10)), (''r'', PyFloat (3 / 100))],
            self_s_0 = - 5, self_n_dim = None\<rparr> \<and>
   SimEngine_init ''GeoBrownian'' (Float_number 0)
     [(''sigma'', PyFloat (2 / 10)), (''r'', PyFloat (3 / 100))]
     = Inr \<lparr>self_method = ''GeoBrownian'',
            self_kwargs = [(''sigma'', PyFloat (2 / 10)), (''r'', PyFloat (3 / 100))],
            self_s_0 = 0, self_n_dim = None\<rparr>"
proof -
  let ?kw = "[(''sigma'', PyFloat (2 / 10)), (''r'', PyFloat (3 / 100))]"
  have h1: "set (map fst ?kw) \<subseteq> {''sigma'', ''r'', ''rho''}" by simp
  have lo: "(- 5 :: int) \<le> 0" and hi: "- (2 ^ 53) < (- 5 :: int)" by simp_all
  have h2: "(Int_number (- 5) = Float_number (- 5) \<and> (- 5 :: real) \<le> 0) \<or>
         (Int_number (- 5) = Int_number (- 5) \<and> (- 5 :: int) \<le> 0 \<and> - (2 ^ 53) < (- 5 :: int) \<and>
          (- 5 :: real) = real_of_int (- 5))"
    using lo hi by simp
  have h3: "(Float_number 0 = Float_number 0 \<and> (0 :: real) \<le> 0) \<or>
         (Float_number 0 = Int_number 0 \<and> (0 :: int) \<le> 0 \<and> - (2 ^ 53) < (0 :: int) \<and>
          (0 :: real) = real_of_int 0)"
    by simp
  from h1 lo hi C4_zero_or_negative_price_accepted [OF h1 h2]
    C4_zero_or_negative_price_accepted [OF h1 h3]
  show ?thesis by (intro conjI)
qed



text \<open>
  The simulate call: every failure of the factorisation is a \<^verbatim>\<open>LinAlgError\<close>, and an error of
  the preparation leaves the random source untouched.
\<close>

lemma chol_rows_error: "chol_rows A i = Inl e \<Longrightarrow> \<exists>msg. e = LinAlgError msg"
  by (induction i) (auto simp: Let_def split: sum.splits if_splits)

lemma cholesky_error: "cholesky A = Inl e \<Longrightarrow> \<exists>msg. e = LinAlgError msg"
  by (auto simp: cholesky_def chol_rows_error split: if_splits)

lemma np_linalg_cholesky_error:
  "np_linalg_cholesky rho = Inl e \<Longrightarrow> \<exists>msg. e = LinAlgError msg"
  by (cases rho) (auto simp: cholesky_error)

lemma prc_generator_prepare_error:
  "self_method self = ''GeoBrownian'' \<Longrightarrow> prepare self (as_iterable upper_t) = Inl e \<Longrightarrow>
   prc_generator self upper_t g = (Inl e, g)"
  by (simp add: prc_generator_def)

lemma n_dim_Inr_method: "n_dim self = Inr n \<Longrightarrow> self_method self = ''GeoBrownian''"
  by (simp add: n_dim_def split: if_splits)

lemma n_dim_Inr_sigma: "n_dim self = Inr n \<Longrightarrow> \<exists>v. getitem (self_kwargs self) ''sigma'' = Inr v"
  by (auto simp add: n_dim_def split: if_splits sum.splits)

text \<open>
  Claim C10. With more than one dimension the correlation must be a \<^verbatim>\<open>numpy.matrix\<close>: a plain
  \<^verbatim>\<open>ndarray\<close> that the factorisation accepts (so square and positive definite, of any size, the
  right one included) makes the simulate call raise the type error. The factorisation runs
  before the type and dimension checks: whatever it raises is what the call raises, for a
  matrix and for an array alike.
\<close>

theorem C10_factorisation_before_checks:
  assumes "n_dim self = Inr n" and "1 < n"
    and "getitem (self_kwargs self) ''r'' = Inr rv"
    and "getitem (self_kwargs self) ''rho'' = Inr rho"
  shows "(\<forall>A L. rho = PyNdarray A \<and> cholesky A = Inr L \<longrightarrow>
            prc_generator self upper_t g = (Inl (ValueError ''Illegal input type of rho''), g)) \<and>
         (\<forall>e. np_linalg_cholesky rho = Inl e \<longrightarrow>
            prc_generator self upper_t g = (Inl e, g) \<and> (\<exists>msg. e = LinAlgError msg))"
proof -
  from assms(1) have m: "self_method self = ''GeoBrownian''" by (rule n_dim_Inr_method)
  from assms(1) obtain sv where sv: "getitem (self_kwargs self) ''sigma'' = Inr sv"
    using n_dim_Inr_sigma by blast
  have a: "prc_generator self upper_t g = (Inl (ValueError ''Illegal input type of rho''), g)"
    if "rho = PyNdarray A" "cholesky A = Inr L" for A L
  proof -
    have "prepare self (as_iterable upper_t) = Inl (ValueError ''Illegal input type of rho'')"
      using assms sv that by (simp add: prepare_def correlation_factor_def)
    with m show ?thesis by (rule prc_generator_prepare_error)
  qed
  have b: "prc_generator self upper_t g = (Inl e, g)" if "np_linalg_cholesky rho = Inl e" for e
  proof -
    have "prepare self (as_iterable upper_t) = Inl e"
      using assms sv that by (simp add: prepare_def correlation_factor_def)
    with m show ?thesis by (rule prc_generator_prepare_error)
  qed
  from a b np_linalg_cholesky_error show ?thesis by blast
qed

lemma cholesky_identity2: "cholesky [[1, 0], [0, 1]] = Inr [[1, 0], [0, 1]]"
  by (simp add: cholesky_def is_square_def numeral_2_eq_2 dot_def Let_def)

lemma cholesky_indefinite2: "cholesky [[1, 2], [2, 1]] = Inl (LinAlgError ''Matrix is not positive definite'')"
  by (simp add: cholesky_def is_square_def numeral_2_eq_2 dot_def Let_def)

text \<open>
  The claim at two assets: the identity as a plain array raises the type error, the
  indefinite matrix \<open>[[1, 2], [2, 1]]\<close> the factorisation's error.
\<close>

theorem C10_factorisation_before_checks_witness:
  "n_dim \<lparr>self_method = ''GeoBrownian'',
          self_kwargs = [(''sigma'', PyList [2 / 10, 2 / 10]), (''r'', PyFloat (3 / 100)),
                         (''rho'', PyNdarray [[1, 0], [0, 1]])],
          self_s_0 = 100, self_n_dim = None\<rparr> = Inr 2 \<and>
   cholesky [[1, 0], [0, 1]] = Inr [[1, 0], [0, 1]] \<and>
   prc_generator \<lparr>self_method = ''GeoBrownian'',
          self_kwargs = [(''sigma'', PyList [2 / 10, 2 / 10]), (''r'', PyFloat (3 / 100)),
                         (''rho'', PyNdarray [[1, 0], [0, 1]])],
          self_s_0 = 100, self_n_dim = None\<rparr> (Seq [1, 2]) (\<lambda>k. 0)
     = (Inl (ValueError ''Illegal input type of rho''), (\<lambda>k. 0)) \<and>
   n_dim \<lparr>self_method = ''GeoBrownian'',
          self_kwargs = [(''sigma'', PyList [2 / 10, 2 / 10]), (''r'', PyFloat (3 / 100)),
                         (''rho'', PyMatrix [[1, 2], [2, 1]])],
          self_s_0 = 100, self_n_dim = None\<rparr> = Inr 2 \<and>
   np_linalg_cholesky (PyMatrix [[1, 2], [2, 1]]) = Inl (LinAlgError ''Matrix is not positive definite'') \<and>
   prc_generator \<lparr>self_method = ''GeoBrownian'',
          self_kwargs = [(''sigma'', PyList [2 / 10, 2 / 10]), (''r'', PyFloat (3 / 100)),
                         (''rho'', PyMatrix [[1, 2], [2, 1]])],
          self_s_0 = 100, self_n_dim = None\<rparr> (Seq [1, 2]) (\<lambda>k. 0)
     = (Inl (LinAlgError ''Matrix is not positive definite''), (\<lambda>k. 0))"
proof -
  let ?e1 = "\<lparr>self_method = ''GeoBrownian'',
          self_kwargs = [(''sigma'', PyList [2 / 10, 2 / 10]), (''r'', PyFloat (3 / 100)),
                         (''rho'', PyNdarray [[1, 0], [0, 1]])],
          self_s_0 = 100, self_n_dim = None\<rparr>"
  let ?e2 = "\<lparr>self_method = ''GeoBrownian'',
          self_kwargs = [(''sigma'', PyList [2 / 10, 2 / 10]), (''r'', PyFloat (3 / 100)),
                         (''rho'', PyMatrix [[1, 2], [2, 1]])],
          self_s_0 = 100, self_n_dim = None\<rparr>"
  have n1: "n_dim ?e1 = Inr 2" by (simp add: n_dim_def getitem_def)
  have n2: "n_dim ?e2 = Inr 2" by (simp add: n_dim_def getitem_def)
  have two: "1 < (2::nat)" by simp
  have r1: "getitem (self_kwargs ?e1) ''r'' = Inr (PyFloat (3 / 100))" by (simp add: getitem_def)
  have r2: "getitem (self_kwargs ?e2) ''r'' = Inr (PyFloat (3 / 100))" by (simp add: getitem_def)
  have rho1: "getitem (self_kwargs ?e1) ''rho'' = Inr (PyNdarray [[1, 0], [0, 1]])" by (simp add: getitem_def)
  have rho2: "getitem (self_kwargs ?e2) ''rho'' = Inr (PyMatrix [[1, 2], [2, 1]])" by (simp add: getitem_def)
  have c2: "np_linalg_cholesky (PyMatrix [[1, 2], [2, 1]]) = Inl (LinAlgError ''Matrix is not positive definite'')"
    by (simp add: cholesky_indefinite2)
  from C10_factorisation_before_checks [OF n1 two r1 rho1, of "Seq [1, 2]" "\<lambda>k. 0"] cholesky_identity2
  have a: "prc_generator ?e1 (Seq [1, 2]) (\<lambda>k. 0) = (Inl (ValueError ''Illegal input type of rho''), (\<lambda>k. 0))"
    by blast
  from C10_factorisation_before_checks [OF n2 two r2 rho2, of "Seq [1, 2]" "\<lambda>k. 0"] c2
  have b: "prc_generator ?e2 (Seq [1, 2]) (\<lambda>k. 0) = (Inl (LinAlgError ''Matrix is not positive definite''), (\<lambda>k. 0))"
    by blast
  from n1 n2 cholesky_identity2 c2 a b show ?thesis by blast
qed





lemma scale_one: "map (map ((*) (1::real))) x = x"
  by (simp add: map_idI)

lemma n_dim_cong:
  assumes "self_method other = self_method self"
    and "map_of (self_kwargs other) ''sigma'' = map_of (self_kwargs self) ''sigma''"
  shows "n_dim other = n_dim self"
  using assms by (simp add: n_dim_def getitem_def)

text \<open>
  Claim C6. When the dimension count is 1 the correlation factor is the scalar 1, the
  shocks are the raw draws unchanged, and the simulate call does not depend on \<open>rho\<close>: an
  engine that differs in nothing but the \<open>rho\<close> entry (another value, or none) gives the same
  result from the same random source.
\<close>

theorem C6_one_dimension_no_correlation:
  assumes "n_dim self = Inr 1"
  shows "correlation_factor self = Inr (Scalar_factor 1) \<and>
     (\<forall>st. prepare self ts = Inr st \<longrightarrow>
        st_upper_r st = Scalar_factor 1 \<and>
        draw_shocks 1 st g =
          (Inr (fst (np_random_normal 1 (length (np_diff_prepend0 ts)) g)),
           snd (np_random_normal 1 (length (np_diff_prepend0 ts)) g))) \<and>
     (\<forall>other. self_method other = self_method self \<and> self_s_0 other = self_s_0 self \<and>
        (\<forall>key. key \<noteq> ''rho'' \<longrightarrow> map_of (self_kwargs other) key = map_of (self_kwargs self) key) \<longrightarrow>
        prc_generator other upper_t g = prc_generator self upper_t g)"
proof (intro conjI allI impI)
  show cf: "correlation_factor self = Inr (Scalar_factor 1)"
    using assms by (simp add: correlation_factor_def)
  {
    fix st assume st: "prepare self ts = Inr st"
    with cf have f: "st_upper_r st = Scalar_factor 1" and d: "st_t_diff st = np_diff_prepend0 ts"
      by (auto simp: prepare_def split: sum.splits)
    show "st_upper_r st = Scalar_factor 1" by (rule f)
    show "draw_shocks 1 st g =
          (Inr (fst (np_random_normal 1 (length (np_diff_prepend0 ts)) g)),
           snd (np_random_normal 1 (length (np_diff_prepend0 ts)) g))"
      using f d by (simp add: draw_shocks_def scale_one split_beta)
  }
  {
    fix other :: sim_engine
    assume o: "self_method other = self_method self \<and> self_s_0 other = self_s_0 self \<and>
        (\<forall>key. key \<noteq> ''rho'' \<longrightarrow> map_of (self_kwargs other) key = map_of (self_kwargs self) key)"
    then have sg: "map_of (self_kwargs other) ''sigma'' = map_of (self_kwargs self) ''sigma''"
      and rr: "map_of (self_kwargs other) ''r'' = map_of (self_kwargs self) ''r''"
      by simp_all
    from o have m: "self_method other = self_method self" and s0: "self_s_0 other = self_s_0 self"
      by simp_all
    from m sg have n: "n_dim other = n_dim self" by (rule n_dim_cong)
    with assms have cfo: "correlation_factor other = Inr (Scalar_factor 1)"
      by (simp add: correlation_factor_def)
    have p: "prepare other (as_iterable upper_t) = prepare self (as_iterable upper_t)"
      unfolding prepare_def getitem_def sg rr cf cfo ..
    show "prc_generator other upper_t g = prc_generator self upper_t g"
      by (simp only: prc_generator_def p n m s0)
  }
qed

text \<open>
  The claim at a scalar \<open>sigma\<close>, three evaluation times and the random source 0, 1, 2, ...;
  the indefinite \<open>rho\<close> the engine carries makes no difference.
\<close>

theorem C6_one_dimension_no_correlation_witness:
  "n_dim \<lparr>self_method = ''GeoBrownian'',
          self_kwargs = [(''sigma'', PyFloat (4 / 10)), (''r'', PyFloat (3 / 100)),
                         (''rho'', PyMatrix [[1, 2], [2, 1]])],
          self_s_0 = 100, self_n_dim = None\<rparr> = Inr 1 \<and>
   correlation_factor \<lparr>self_method = ''GeoBrownian'',
          self_kwargs = [(''sigma'', PyFloat (4 / 10)), (''r'', PyFloat (3 / 100)),
                         (''rho'', PyMatrix [[1, 2], [2, 1]])],
          self_s_0 = 100, self_n_dim = None\<rparr> = Inr (Scalar_factor 1) \<and>
   (\<exists>st. prepare \<lparr>self_method = ''GeoBrownian'',
          self_kwargs = [(''sigma'', PyFloat (4 / 10)), (''r'', PyFloat (3 / 100)),
                         (''rho'', PyMatrix [[1, 2], [2, 1]])],
          self_s_0 = 100, self_n_dim = None\<rparr> [1, 2, 3] = Inr st \<and>
      fst (draw_shocks 1 st (\<lambda>k. real k)) = Inr [[0, 1, 2]] \<and>
      fst (np_random_normal 1 3 (\<lambda>k. real k)) = [[0, 1, 2]]) \<and>
   prc_generator \<lparr>self_method = ''GeoBrownian'',
          self_kwargs = [(''sigma'', PyFloat (4 / 10)), (''r'', PyFloat (3 / 100))],
          self_s_0 = 100, self_n_dim = None\<rparr> (Seq [1, 2, 3]) (\<lambda>k. real k) =
   prc_generator \<lparr>self_method = ''GeoBrownian'',
          self_kwargs = [(''sigma'', PyFloat (4 / 10)), (''r'', PyFloat (3 / 100)),
                         (''rho'', PyMatrix [[1, 2], [2, 1]])],
          self_s_0 = 100, self_n_dim = None\<rparr> (Seq [1, 2, 3]) (\<lambda>k. real k)"
proof -
  let ?e = "\<lparr>self_method = ''GeoBrownian'',
          self_kwargs = [(''sigma'', PyFloat (4 / 10)), (''r'', PyFloat (3 / 100)),
                         (''rho'', PyMatrix [[1, 2], [2, 1]])],
          self_s_0 = 100, self_n_dim = None\<rparr>"
  let ?o = "\<lparr>self_method = ''GeoBrownian'',
          self_kwargs = [(''sigma'', PyFloat (4 / 10)), (''r'', PyFloat (3 / 100))],
          self_s_0 = 100, self_n_dim = None\<rparr>"
  let ?st = "\<lparr>st_sigma_array = Array1 [4 / 10], st_r = PyFloat (3 / 100),
              st_t_diff = [1, 1, 1], st_upper_r = Scalar_factor 1\<rparr>"
  have n: "n_dim ?e = Inr 1" by (simp add: n_dim_def getitem_def)
  note c6 = C6_one_dimension_no_correlation [OF n, of "[1, 2, 3]" "\<lambda>k. real k" "Seq [1, 2, 3]"]
  note cf = c6 [THEN conjunct1]
  note sh = c6 [THEN conjunct2, THEN conjunct1, rule_format, THEN conjunct2]
  note ind = c6 [THEN conjunct2, THEN conjunct2, rule_format]
  have pr: "prepare ?e [1, 2, 3] = Inr ?st"
    using cf by (simp add: prepare_def getitem_def np_diff_prepend0_def)
  have x: "fst (np_random_normal 1 3 (\<lambda>k. real k)) = [[0, 1, 2]]"
    by (simp add: np_random_normal_def upt_conv_Cons numeral_3_eq_3)
  have len: "length (np_diff_prepend0 [1, 2, 3]) = 3"
    by (simp add: np_diff_prepend0_def)
  have d: "fst (draw_shocks 1 ?st (\<lambda>k. real k)) = Inr [[0, 1, 2]]"
    unfolding sh [OF pr] len fst_conv x ..
  have agree: "self_method ?o = self_method ?e \<and> self_s_0 ?o = self_s_0 ?e \<and>
        (\<forall>key. key \<noteq> ''rho'' \<longrightarrow> map_of (self_kwargs ?o) key = map_of (self_kwargs ?e) key)"
    by simp
  have same: "prc_generator ?o (Seq [1, 2, 3]) (\<lambda>k. real k) =
      prc_generator ?e (Seq [1, 2, 3]) (\<lambda>k. real k)"
    by (rule ind [OF agree])
  have ex: "\<exists>st. prepare ?e [1, 2, 3] = Inr st \<and>
      fst (draw_shocks 1 st (\<lambda>k. real k)) = Inr [[0, 1, 2]] \<and>
      fst (np_random_normal 1 3 (\<lambda>k. real k)) = [[0, 1, 2]]"
    using pr d x by (intro exI [of _ ?st] conjI)
  show ?thesis
    using n cf ex same by (intro conjI)
qed

text \<open>
  The factorisation. A row of the factor is the entries left of the diagonal, the
  pivot's root and zeros; the entries satisfy the equations of \<open>L L\<^sup>T = A\<close> on the lower
  triangle. For a symmetric matrix the equations hold everywhere, and the quadratic form
  is a sum of squares: a matrix the factorisation accepts is positive-semidefinite.
\<close>

lemma dot_take_sum:
  assumes "length xs = n" and "n \<le> length ys"
  shows "dot xs (take n ys) = (\<Sum>k<n. xs ! k * ys ! k)"
proof -
  have "sum_list (map2 (*) xs (take n ys)) = (\<Sum>k = 0..<n. map2 (*) xs (take n ys) ! k)"
    using assms by (simp add: sum_list_sum_nth)
  also have "\<dots> = (\<Sum>k = 0..<n. xs ! k * ys ! k)"
    using assms by (intro sum.cong) simp_all
  finally show ?thesis by (simp add: dot_def atLeast0LessThan)
qed

lemma dot_self_sum: "length xs = n \<Longrightarrow> dot xs xs = (\<Sum>k<n. (xs ! k)\<^sup>2)"
  using dot_take_sum [of xs n xs] by (simp add: power2_eq_square)

lemma chol_entries_length: "length (chol_entries a Ls q) = q"
  by (induction q) (simp_all add: Let_def)

lemma chol_entries_nth:
  "j < q \<Longrightarrow> chol_entries a Ls q ! j = chol_entries a Ls (Suc j) ! j"
proof (induction q)
  case 0
  then show ?case by simp
next
  case (Suc q)
  show ?case
  proof (cases "j = q")
    case True
    then show ?thesis by simp
  next
    case False
    with Suc.prems have "j < q" by simp
    with Suc.IH show ?thesis
      by (simp add: Let_def nth_append chol_entries_length)
  qed
qed

lemma chol_entries_take:
  "j \<le> q \<Longrightarrow> take j (chol_entries a Ls q) = chol_entries a Ls j"
proof (induction q)
  case 0
  then show ?case by simp
next
  case (Suc q)
  show ?case
  proof (cases "j = Suc q")
    case True
    then show ?thesis using chol_entries_length [of a Ls "Suc q"] by simp
  next
    case False
    with Suc.prems have "j \<le> q" by simp
    with Suc.IH show ?thesis by (simp add: Let_def chol_entries_length)
  qed
qed

lemma chol_entries_eq:
  assumes "j < q" and "j \<le> length (Ls ! j)" and "Ls ! j ! j \<noteq> 0"
  shows "chol_entries a Ls q ! j * Ls ! j ! j =
           a ! j - (\<Sum>k<j. chol_entries a Ls q ! k * Ls ! j ! k)"
proof -
  have "chol_entries a Ls q ! j = chol_entries a Ls (Suc j) ! j"
    using assms(1) by (rule chol_entries_nth)
  also have "\<dots> = (a ! j - dot (chol_entries a Ls j) (take j (Ls ! j))) / (Ls ! j ! j)"
    by (simp add: Let_def nth_append chol_entries_length)
  also have "dot (chol_entries a Ls j) (take j (Ls ! j)) =
               (\<Sum>k<j. chol_entries a Ls j ! k * Ls ! j ! k)"
    using assms(2) by (simp add: dot_take_sum chol_entries_length)
  also have "(\<Sum>k<j. chol_entries a Ls j ! k * Ls ! j ! k) =
               (\<Sum>k<j. chol_entries a Ls q ! k * Ls ! j ! k)"
  proof (intro sum.cong refl)
    fix k assume "k \<in> {..<j}"
    then have k: "k < j" by simp
    have "chol_entries a Ls j ! k = take j (chol_entries a Ls q) ! k"
      using assms(1) by (simp add: chol_entries_take)
    with k show "chol_entries a Ls j ! k * Ls ! j ! k = chol_entries a Ls q ! k * Ls ! j ! k"
      by simp
  qed
  finally show ?thesis using assms(3) by simp
qed

lemma chol_entries_cong:
  "(\<And>j. j < q \<Longrightarrow> Ls ! j = Ms ! j) \<Longrightarrow> chol_entries a Ls q = chol_entries a Ms q"
  by (induction q) (simp_all add: Let_def)


lemma chol_rows_length: "chol_rows A i = Inr Ls \<Longrightarrow> length Ls = i"
  by (induction i arbitrary: Ls) (auto simp: Let_def split: sum.splits if_splits)

lemma chol_rows_prefix:
  "chol_rows A i = Inr Ls \<Longrightarrow> m \<le> i \<Longrightarrow> chol_rows A m = Inr (take m Ls)"
proof (induction i arbitrary: Ls)
  case 0
  then show ?case by simp
next
  case (Suc i)
  from Suc.prems(1) obtain Ls' row where Ls': "chol_rows A i = Inr Ls'" and Ls: "Ls = Ls' @ [row]"
    by (auto simp: Let_def split: sum.splits if_splits)
  have len: "length Ls' = i" using Ls' by (rule chol_rows_length)
  show ?case
  proof (cases "m = Suc i")
    case True
    then show ?thesis using Suc.prems(1) Ls len by simp
  next
    case False
    with Suc.prems(2) have "m \<le> i" by simp
    with Suc.IH [OF Ls'] have "chol_rows A m = Inr (take m Ls')" by simp
    then show ?thesis using Ls len \<open>m \<le> i\<close> by simp
  qed
qed

lemma chol_row_form:
  assumes "chol_rows A i = Inr Ls" and "m < i"
  shows "0 < A ! m ! m - dot (chol_entries (A ! m) Ls m) (chol_entries (A ! m) Ls m) \<and>
         Ls ! m = chol_entries (A ! m) Ls m @
           sqrt (A ! m ! m - dot (chol_entries (A ! m) Ls m) (chol_entries (A ! m) Ls m)) #
           replicate (length A - Suc m) 0"
proof -
  have len: "length Ls = i" using assms(1) by (rule chol_rows_length)
  have pm: "chol_rows A m = Inr (take m Ls)"
    using assms by (intro chol_rows_prefix [of A i]) simp_all
  have ps: "chol_rows A (Suc m) = Inr (take (Suc m) Ls)"
    using assms by (intro chol_rows_prefix [of A i]) simp_all
  have ce: "chol_entries (A ! m) (take m Ls) m = chol_entries (A ! m) Ls m"
    by (rule chol_entries_cong) simp
  let ?ls = "chol_entries (A ! m) Ls m"
  let ?d = "A ! m ! m - dot ?ls ?ls"
  from ps pm ce have pos: "0 < ?d"
    and row: "take (Suc m) Ls = take m Ls @ [?ls @ sqrt ?d # replicate (length A - Suc m) 0]"
    by (auto simp: Let_def split: if_splits)
  have "Ls ! m = take (Suc m) Ls ! m" by simp
  also have "\<dots> = ?ls @ sqrt ?d # replicate (length A - Suc m) 0"
    unfolding row using len assms(2) by (simp add: nth_append)
  finally show ?thesis using pos by simp
qed

lemma chol_row_length:
  assumes "chol_rows A i = Inr Ls" and "m < i" and "i \<le> length A"
  shows "length (Ls ! m) = length A"
  using chol_row_form [OF assms(1,2)] assms(2,3)
  by (simp add: chol_entries_length)

lemma chol_below:
  assumes "chol_rows A i = Inr Ls" and "m < i" and "j < m"
  shows "Ls ! m ! j = chol_entries (A ! m) Ls m ! j"
  using chol_row_form [OF assms(1,2)] assms(3)
  by (simp add: nth_append chol_entries_length)

lemma chol_diag:
  assumes "chol_rows A i = Inr Ls" and "m < i"
  shows "0 < Ls ! m ! m"
    and "(Ls ! m ! m)\<^sup>2 = A ! m ! m - (\<Sum>k<m. (Ls ! m ! k)\<^sup>2)"
proof -
  let ?ls = "chol_entries (A ! m) Ls m"
  let ?d = "A ! m ! m - dot ?ls ?ls"
  from chol_row_form [OF assms] have pos: "0 < ?d"
    and d: "Ls ! m ! m = sqrt ?d"
    by (simp_all add: nth_append chol_entries_length)
  from pos d show "0 < Ls ! m ! m" by simp
  have "dot ?ls ?ls = (\<Sum>k<m. (?ls ! k)\<^sup>2)"
    by (simp add: dot_self_sum chol_entries_length)
  also have "\<dots> = (\<Sum>k<m. (Ls ! m ! k)\<^sup>2)"
    by (intro sum.cong refl) (simp add: chol_below [OF assms])
  finally have "?d = A ! m ! m - (\<Sum>k<m. (Ls ! m ! k)\<^sup>2)" by simp
  moreover have "(Ls ! m ! m)\<^sup>2 = ?d" using pos d by simp
  ultimately show "(Ls ! m ! m)\<^sup>2 = A ! m ! m - (\<Sum>k<m. (Ls ! m ! k)\<^sup>2)" by simp
qed

lemma chol_above:
  assumes "chol_rows A i = Inr Ls" and "m < i" and "m < j" and "j < length A"
  shows "Ls ! m ! j = 0"
  using chol_row_form [OF assms(1,2)] assms(3,4)
  by (simp add: nth_append chol_entries_length nth_Cons split: nat.splits)

lemma chol_off_diag:
  assumes "chol_rows A i = Inr Ls" and "m < i" and "j < m" and "i \<le> length A"
  shows "Ls ! m ! j * Ls ! j ! j = A ! m ! j - (\<Sum>k<j. Ls ! m ! k * Ls ! j ! k)"
proof -
  have ji: "j < i" using assms(2,3) by simp
  have lj: "j \<le> length (Ls ! j)"
    using chol_row_length [OF assms(1) ji assms(4)] ji assms(4) by simp
  have nz: "Ls ! j ! j \<noteq> 0" using chol_diag(1) [OF assms(1) ji] by simp
  have "chol_entries (A ! m) Ls m ! j * Ls ! j ! j =
          A ! m ! j - (\<Sum>k<j. chol_entries (A ! m) Ls m ! k * Ls ! j ! k)"
    using assms(3) lj nz by (rule chol_entries_eq)
  also have "(\<Sum>k<j. chol_entries (A ! m) Ls m ! k * Ls ! j ! k) = (\<Sum>k<j. Ls ! m ! k * Ls ! j ! k)"
    using assms(3) by (intro sum.cong refl) (simp add: chol_below [OF assms(1,2)])
  finally show ?thesis using assms(3) by (simp add: chol_below [OF assms(1,2)])
qed


lemma sum_split_zero_tail:
  fixes f :: "nat \<Rightarrow> real"
  assumes "j < n" and "\<And>k. j < k \<Longrightarrow> k < n \<Longrightarrow> f k = 0"
  shows "(\<Sum>k<n. f k) = (\<Sum>k<j. f k) + f j"
proof -
  have "{..<n} = {..<Suc j} \<union> {Suc j..<n}" using assms(1) by auto
  moreover have "{..<Suc j} \<inter> {Suc j..<n} = {}" by auto
  ultimately have "(\<Sum>k<n. f k) = (\<Sum>k<Suc j. f k) + (\<Sum>k = Suc j..<n. f k)"
    by (simp add: sum.union_disjoint)
  moreover have "(\<Sum>k = Suc j..<n. f k) = 0"
    by (intro sum.neutral) (simp add: assms(2))
  ultimately show ?thesis by simp
qed

lemma chol_product_lower:
  assumes "chol_rows A (length A) = Inr L" and "m < length A" and "j \<le> m"
  shows "A ! m ! j = (\<Sum>k<length A. L ! m ! k * L ! j ! k)"
proof -
  have jn: "j < length A" using assms(2,3) by simp
  have tail: "\<And>k. j < k \<Longrightarrow> k < length A \<Longrightarrow> L ! m ! k * L ! j ! k = 0"
    using chol_above [OF assms(1) jn] by simp
  have split: "(\<Sum>k<length A. L ! m ! k * L ! j ! k) =
                 (\<Sum>k<j. L ! m ! k * L ! j ! k) + L ! m ! j * L ! j ! j"
    using jn tail by (rule sum_split_zero_tail)
  show ?thesis
  proof (cases "j = m")
    case True
    with chol_diag(2) [OF assms(1,2)] split show ?thesis
      by (simp add: power2_eq_square)
  next
    case False
    with assms(3) have "j < m" by simp
    from chol_off_diag [OF assms(1,2) this] split show ?thesis by simp
  qed
qed

lemma symmetric_nth:
  "symmetric A \<Longrightarrow> i < length A \<Longrightarrow> j < length A \<Longrightarrow> A ! i ! j = A ! j ! i"
  by (simp add: symmetric_def list_all_iff)

lemma chol_product:
  assumes "chol_rows A (length A) = Inr L" and "symmetric A"
    and "i < length A" and "j < length A"
  shows "A ! i ! j = (\<Sum>k<length A. L ! i ! k * L ! j ! k)"
proof (cases "j \<le> i")
  case True
  with assms(1,3) show ?thesis by (rule chol_product_lower)
next
  case False
  then have "i \<le> j" by simp
  with assms(1,4) have "A ! j ! i = (\<Sum>k<length A. L ! j ! k * L ! i ! k)"
    by (rule chol_product_lower)
  also have "\<dots> = (\<Sum>k<length A. L ! i ! k * L ! j ! k)"
    by (simp add: mult.commute)
  finally show ?thesis using symmetric_nth [OF assms(2,3,4)] by simp
qed

lemma quad_form_squares:
  assumes "chol_rows A (length A) = Inr L" and "symmetric A"
  shows "quad_form A x = (\<Sum>k<length A. (\<Sum>i<length A. x ! i * L ! i ! k)\<^sup>2)"
proof -
  let ?n = "length A"
  have "quad_form A x = (\<Sum>i<?n. \<Sum>j<?n. x ! i * (\<Sum>k<?n. L ! i ! k * L ! j ! k) * x ! j)"
    unfolding quad_form_def
    by (intro sum.cong refl) (simp add: chol_product [OF assms])
  also have "\<dots> = (\<Sum>i<?n. \<Sum>j<?n. \<Sum>k<?n. (x ! i * L ! i ! k) * (x ! j * L ! j ! k))"
    by (intro sum.cong refl) (simp add: sum_distrib_left sum_distrib_right algebra_simps)
  also have "\<dots> = (\<Sum>i<?n. \<Sum>k<?n. \<Sum>j<?n. (x ! i * L ! i ! k) * (x ! j * L ! j ! k))"
    by (rule sum.cong [OF refl]) (rule sum.swap)
  also have "\<dots> = (\<Sum>k<?n. \<Sum>i<?n. \<Sum>j<?n. (x ! i * L ! i ! k) * (x ! j * L ! j ! k))"
    by (rule sum.swap)
  also have "\<dots> = (\<Sum>k<?n. (\<Sum>i<?n. x ! i * L ! i ! k)\<^sup>2)"
    by (intro sum.cong refl) (simp add: power2_eq_square sum_product)
  finally show ?thesis .
qed

lemma cholesky_positive_semidefinite:
  assumes "cholesky A = Inr L" and "symmetric A"
  shows "positive_semidefinite A"
proof -
  from assms(1) have "chol_rows A (length A) = Inr L"
    by (simp add: cholesky_def split: if_splits)
  then have "quad_form A x = (\<Sum>k<length A. (\<Sum>i<length A. x ! i * L ! i ! k)\<^sup>2)" for x
    using assms(2) by (rule quad_form_squares)
  then show ?thesis
    by (simp add: positive_semidefinite_def sum_nonneg)
qed


text \<open>
  Claim C7, amended. With more than one dimension and a symmetric correlation matrix that is not
  positive-semidefinite, as a \<^verbatim>\<open>numpy.matrix\<close> or as a plain array, the simulate call raises the
  factorisation's \<^verbatim>\<open>LinAlgError\<close>: it returns no path array, and no random number is drawn.
\<close>

theorem C7_not_semidefinite_raises:
  assumes "n_dim self = Inr n" and "1 < n"
    and "getitem (self_kwargs self) ''r'' = Inr rv"
    and "getitem (self_kwargs self) ''rho'' = Inr rho"
    and "rho = PyMatrix A \<or> rho = PyNdarray A"
    and "symmetric A" and "\<not> positive_semidefinite A"
  shows "\<exists>msg. prc_generator self upper_t g = (Inl (LinAlgError msg), g)"
proof -
  from assms(6,7) have "\<not> (\<exists>L. cholesky A = Inr L)"
    using cholesky_positive_semidefinite by blast
  then obtain e where "cholesky A = Inl e" by (cases "cholesky A") auto
  with assms(5) have ch: "np_linalg_cholesky rho = Inl e" by auto
  then obtain msg where msg: "e = LinAlgError msg"
    using np_linalg_cholesky_error by blast
  from assms(1) have m: "self_method self = ''GeoBrownian''" by (rule n_dim_Inr_method)
  from assms(1) obtain sv where sv: "getitem (self_kwargs self) ''sigma'' = Inr sv"
    using n_dim_Inr_sigma by blast
  have "prepare self (as_iterable upper_t) = Inl e"
    using assms(1-4) sv ch by (simp add: prepare_def correlation_factor_def)
  with m have "prc_generator self upper_t g = (Inl e, g)" by (rule prc_generator_prepare_error)
  with msg show ?thesis by simp
qed

text \<open>
  The amended claim at the matrix \<open>[[1, 2], [2, 1]]\<close>, whose quadratic form is -2 at \<open>(1, -1)\<close>.
\<close>

theorem C7_not_semidefinite_raises_witness:
  "n_dim \<lparr>self_method = ''GeoBrownian'',
          self_kwargs = [(''sigma'', PyList [2 / 10, 2 / 10]), (''r'', PyFloat (3 / 100)),
                         (''rho'', PyMatrix [[1, 2], [2, 1]])],
          self_s_0 = 100, self_n_dim = None\<rparr> = Inr 2 \<and>
   symmetric [[1, 2], [2, 1]] \<and>
   quad_form [[1, 2], [2, 1]] [1, - 1] = - 2 \<and>
   \<not> positive_semidefinite [[1, 2], [2, 1]] \<and>
   (\<exists>msg. prc_generator \<lparr>self_method = ''GeoBrownian'',
          self_kwargs = [(''sigma'', PyList [2 / 10, 2 / 10]), (''r'', PyFloat (3 / 100)),
                         (''rho'', PyMatrix [[1, 2], [2, 1]])],
          self_s_0 = 100, self_n_dim = None\<rparr> (Seq [1, 2]) (\<lambda>k. 0)
      = (Inl (LinAlgError msg), (\<lambda>k. 0)))"
proof -
  let ?e = "\<lparr>self_method = ''GeoBrownian'',
          self_kwargs = [(''sigma'', PyList [2 / 10, 2 / 10]), (''r'', PyFloat (3 / 100)),
                         (''rho'', PyMatrix [[1, 2], [2, 1]])],
          self_s_0 = 100, self_n_dim = None\<rparr>"
  have n: "n_dim ?e = Inr 2" by (simp add: n_dim_def getitem_def)
  have two: "1 < (2::nat)" by simp
  have r: "getitem (self_kwargs ?e) ''r'' = Inr (PyFloat (3 / 100))" by (simp add: getitem_def)
  have rho: "getitem (self_kwargs ?e) ''rho'' = Inr (PyMatrix [[1, 2], [2, 1]])"
    by (simp add: getitem_def)
  have ty: "PyMatrix [[1, 2], [2, 1]] = PyMatrix [[1, 2], [2, 1]] \<or>
            PyMatrix [[1, 2], [2, 1]] = PyNdarray [[1, 2], [2, 1]]" by simp
  have sym: "symmetric [[1, 2], [2, 1]]"
    by (simp add: symmetric_def is_square_def upt_conv_Cons numeral_2_eq_2)
  have q: "quad_form [[1, 2], [2, 1]] [1, - 1] = - 2"
    by (simp add: quad_form_def numeral_2_eq_2)
  have npsd: "\<not> positive_semidefinite [[1, 2], [2, 1]]"
  proof
    assume "positive_semidefinite [[1, 2], [2, 1]]"
    then have "0 \<le> quad_form [[1, 2], [2, 1]] [1, - 1]"
      by (simp add: positive_semidefinite_def)
    with q show False by simp
  qed
  from C7_not_semidefinite_raises [OF n two r rho ty sym npsd, of "Seq [1, 2]" "\<lambda>k. 0"] n sym q npsd
  show ?thesis by (intro conjI)
qed

text \<open>
  Claim C5 is stated for every sequence of time deltas. At a negative delta the loop takes
  \<^verbatim>\<open>np.sqrt\<close> of a negative number: with \<open>s0 = 100\<close>, \<open>sigma = 0\<close>, \<open>r = 0.03\<close>, the single delta
  -1 and a zero shock the price is NaN, not \<open>100 * exp (0.03 * (-1))\<close>.
\<close>

theorem C5_negative_delta_is_nan:
  "list_all (\<lambda>row. row = replicate (length [- 1 :: real]) 0) [[0 :: real]] \<and>
   fast_sim_loop_geo_brownian 100 1 [- 1] [0] (3 / 100) [[0]] = Inr [[None]] \<and>
   fast_sim_loop_geo_brownian 100 1 [- 1] [0] (3 / 100) [[0]] \<noteq>
     Inr [[Some (100 * exp ((3 / 100 - 0\<^sup>2 / 2) * (- 1)))]]"
  by (simp add: fast_sim_loop_geo_brownian_def column_def gbm_step_def broadcast_def np_sqrt_def)

lemma zero_shock_factor:
  "0 \<le> t \<Longrightarrow>
   np_exp (fl_add (Some (a * t)) (fl_mul (Some (s * 0)) (np_sqrt t))) = Some (exp (a * t))"
  by (simp add: np_sqrt_def)

text \<open>
  Claim C5, amended. When no time delta is negative and every shock is zero, the price of
  asset \<open>j\<close> at step \<open>t\<close> is \<open>s0 * exp ((r - sigma\<^sub>j\<^sup>2 / 2) * (dt\<^sub>0 + ... + dt\<^sub>t))\<close>.
\<close>

theorem C5_zero_shocks_drift:
  assumes "length sigma = n" and "length epsilon = n"
    and "list_all (\<lambda>row. row = replicate (length td) 0) epsilon"
    and "list_all (\<lambda>d. 0 \<le> d) td"
  shows "\<exists>prc. fast_sim_loop_geo_brownian s0 n td sigma r epsilon = Inr prc \<and>
     length prc = length td \<and>
     (\<forall>t<length td. prc ! t =
        map (\<lambda>j. Some (s0 * exp ((r - (sigma ! j)\<^sup>2 / 2) * sum_list (take (Suc t) td)))) [0..<n])"
proof -
  have shape: "list_all (\<lambda>row. length row = length td) epsilon"
    using assms(3) by (auto simp: list_all_iff)
  from evolver_rows [OF assms(1,2) shape, of s0 r]
  obtain prc where run: "fast_sim_loop_geo_brownian s0 n td sigma r epsilon = Inr prc"
    and len: "length prc = length td"
    and rec: "\<And>t. t < length td \<Longrightarrow> prc ! t =
        map (\<lambda>j. fl_mul ((if t = 0 then replicate n (Some s0) else prc ! (t - 1)) ! j)
               (np_exp (fl_add (Some ((r - (sigma ! j)\<^sup>2 / 2) * td ! t))
                  (fl_mul (Some (sigma ! j * epsilon ! j ! t)) (np_sqrt (td ! t))))))
          [0..<n]"
    by blast
  have eps0: "epsilon ! j ! t = 0" if "j < n" "t < length td" for j t
  proof -
    from that(1) assms(2) have "epsilon ! j \<in> set epsilon" by simp
    with assms(3) have "epsilon ! j = replicate (length td) 0" by (simp add: list_all_iff)
    with that(2) show ?thesis by simp
  qed
  have pos: "0 \<le> td ! t" if "t < length td" for t
    using assms(4) that by (simp add: list_all_length)
  have fac: "np_exp (fl_add (Some ((r - (sigma ! j)\<^sup>2 / 2) * td ! t))
                  (fl_mul (Some (sigma ! j * epsilon ! j ! t)) (np_sqrt (td ! t)))) =
             Some (exp ((r - (sigma ! j)\<^sup>2 / 2) * td ! t))"
    if "j < n" "t < length td" for j t
    using zero_shock_factor [OF pos [OF that(2)]] eps0 [OF that] by simp
  have closed: "prc ! t =
        map (\<lambda>j. Some (s0 * exp ((r - (sigma ! j)\<^sup>2 / 2) * sum_list (take (Suc t) td)))) [0..<n]"
    if "t < length td" for t
    using that
  proof (induction t)
    case 0
    then have hd: "take (Suc 0) td = [td ! 0]"
      by (cases td) simp_all
    from rec [OF 0] have "prc ! 0 =
        map (\<lambda>j. fl_mul (replicate n (Some s0) ! j)
               (np_exp (fl_add (Some ((r - (sigma ! j)\<^sup>2 / 2) * td ! 0))
                  (fl_mul (Some (sigma ! j * epsilon ! j ! 0)) (np_sqrt (td ! 0)))))) [0..<n]"
      by simp
    also have "\<dots> = map (\<lambda>j. Some (s0 * exp ((r - (sigma ! j)\<^sup>2 / 2) * sum_list (take (Suc 0) td)))) [0..<n]"
      using 0 by (intro map_cong refl) (simp add: fac hd)
    finally show ?case .
  next
    case (Suc t)
    then have t: "t < length td" by simp
    have tk: "sum_list (take (Suc (Suc t)) td) = sum_list (take (Suc t) td) + td ! Suc t"
      using Suc.prems by (simp add: take_Suc_conv_app_nth [of "Suc t"])
    from rec [OF Suc.prems] have "prc ! Suc t =
        map (\<lambda>j. fl_mul (prc ! t ! j)
               (np_exp (fl_add (Some ((r - (sigma ! j)\<^sup>2 / 2) * td ! Suc t))
                  (fl_mul (Some (sigma ! j * epsilon ! j ! Suc t)) (np_sqrt (td ! Suc t)))))) [0..<n]"
      by simp
    also have "\<dots> = map (\<lambda>j. Some (s0 * exp ((r - (sigma ! j)\<^sup>2 / 2) * sum_list (take (Suc (Suc t)) td)))) [0..<n]"
    proof (intro map_cong refl)
      fix j assume "j \<in> set [0..<n]"
      then have j: "j < n" by simp
      have "prc ! t ! j = Some (s0 * exp ((r - (sigma ! j)\<^sup>2 / 2) * sum_list (take (Suc t) td)))"
        using Suc.IH [OF t] j by simp
      then show "fl_mul (prc ! t ! j)
               (np_exp (fl_add (Some ((r - (sigma ! j)\<^sup>2 / 2) * td ! Suc t))
                  (fl_mul (Some (sigma ! j * epsilon ! j ! Suc t)) (np_sqrt (td ! Suc t))))) =
            Some (s0 * exp ((r - (sigma ! j)\<^sup>2 / 2) * sum_list (take (Suc (Suc t)) td)))"
        unfolding fac [OF j Suc.prems] tk
        by (simp add: exp_add distrib_left)
    qed
    finally show ?case .
  qed
  from run len closed show ?thesis by blast
qed

text \<open>
  The amended claim at \<open>s0 = 100\<close>, \<open>sigma = 0\<close>, \<open>r = 0.03\<close>, one step of delta 1 and a zero
  shock: the single price is \<open>100 * exp 0.03\<close>.
\<close>

theorem C5_zero_shocks_drift_witness:
  "length [0 :: real] = 1 \<and> length [[0 :: real]] = 1 \<and>
   list_all (\<lambda>row. row = replicate (length [1 :: real]) 0) [[0 :: real]] \<and>
   list_all (\<lambda>d. 0 \<le> d) [1 :: real] \<and>
   fast_sim_loop_geo_brownian 100 1 [1] [0] (3 / 100) [[0]] = Inr [[Some (100 * exp (3 / 100))]]"
proof -
  have h1: "length [0 :: real] = 1" by simp
  have h2: "length [[0 :: real]] = 1" by simp
  have h3: "list_all (\<lambda>row. row = replicate (length [1 :: real]) 0) [[0 :: real]]" by simp
  have h4: "list_all (\<lambda>d. 0 \<le> d) [1 :: real]" by simp
  from C5_zero_shocks_drift [OF h1 h2 h3 h4, of 100 "3 / 100"]
  obtain prc where prc: "fast_sim_loop_geo_brownian 100 1 [1] [0] (3 / 100) [[0]] = Inr prc"
    "length prc = length [1 :: real]"
    "\<forall>t<length [1 :: real]. prc ! t =
        map (\<lambda>j. Some (100 * exp ((3 / 100 - ([0] ! j)\<^sup>2 / 2) * sum_list (take (Suc t) [1])))) [0..<1]"
    by blast
  from prc(3) have "prc ! 0 = [Some (100 * exp (3 / 100))]" by simp
  with prc(2) have "prc = [[Some (100 * exp (3 / 100))]]"
    by (cases prc) simp_all
  with prc(1) h1 h2 h3 h4 show ?thesis by simp
qed

text \<open>
  Shapes: what the loop, the time differences, the draw, the factorisation and the
  matrix product return.
\<close>

lemma evolver_shape:
  assumes "length sigma = n" and "length epsilon = n"
    and "list_all (\<lambda>row. length row = length td) epsilon"
  shows "\<exists>prc. fast_sim_loop_geo_brownian s0 n td sigma r epsilon = Inr prc \<and>
     length prc = length td \<and> list_all (\<lambda>row. length row = n) prc"
proof -
  from evolver_rows [OF assms, of s0 r]
  obtain prc where run: "fast_sim_loop_geo_brownian s0 n td sigma r epsilon = Inr prc"
    and len: "length prc = length td"
    and rec: "\<And>t. t < length td \<Longrightarrow> prc ! t =
        map (\<lambda>j. fl_mul ((if t = 0 then replicate n (Some s0) else prc ! (t - 1)) ! j)
               (np_exp (fl_add (Some ((r - (sigma ! j)\<^sup>2 / 2) * td ! t))
                  (fl_mul (Some (sigma ! j * epsilon ! j ! t)) (np_sqrt (td ! t))))))
          [0..<n]"
    by blast
  have "length (prc ! t) = n" if "t < length prc" for t
    using rec [of t] that len by simp
  then have "list_all (\<lambda>row. length row = n) prc" by (simp add: list_all_length)
  with run len show ?thesis by blast
qed

lemma np_diff_length: "length (np_diff_prepend0 ts) = length ts"
proof -
  have "length (diff_from p ts) = length ts" for p
    by (induction ts arbitrary: p) simp_all
  then show ?thesis by (simp add: np_diff_prepend0_def)
qed

lemma np_random_normal_shape:
  "length (fst (np_random_normal n T g)) = n \<and>
   list_all (\<lambda>row. length row = T) (fst (np_random_normal n T g))"
  by (simp add: np_random_normal_def list_all_iff)

lemma cholesky_shape:
  assumes "cholesky A = Inr L"
  shows "length L = length A \<and> list_all (\<lambda>row. length row = length A) L \<and> is_square A"
proof -
  from assms have sq: "is_square A" and rows: "chol_rows A (length A) = Inr L"
    by (simp_all add: cholesky_def split: if_splits)
  have len: "length L = length A" using rows by (rule chol_rows_length)
  have "length (L ! m) = length A" if "m < length L" for m
    using chol_row_length [OF rows, of m] that len by simp
  then have "list_all (\<lambda>row. length row = length A) L" by (simp add: list_all_length)
  with len sq show ?thesis by simp
qed

lemma mat_mul_shape:
  assumes "list_all (\<lambda>row. length row = length x) l" and "x \<noteq> []"
    and "list_all (\<lambda>row. length row = T) x"
  shows "\<exists>eps. mat_mul l x = Inr eps \<and> length eps = length l \<and>
           list_all (\<lambda>row. length row = T) eps"
proof -
  from assms(2,3) have "shape1 x = T"
    by (cases x) (simp_all add: shape1_def)
  with assms(1) show ?thesis
    by (simp add: mat_mul_def list_all_iff)
qed

text \<open>
  The simulate call returns one row per evaluation time and one column per dimension when
  \<open>sigma\<close> is a number or a list, \<open>r\<close> a number and, for more than one dimension, \<open>rho\<close> a
  matrix of that size that the factorisation accepts.
\<close>

lemma prc_generator_shape:
  assumes "n_dim self = Inr n"
    and "map_of (self_kwargs self) ''sigma'' = Some sv"
    and "(\<exists>v. sv = PyFloat v) \<or> (\<exists>xs. sv = PyList xs)"
    and "map_of (self_kwargs self) ''r'' = Some (PyFloat rv)"
    and "1 < n \<longrightarrow> (\<exists>A L. map_of (self_kwargs self) ''rho'' = Some (PyMatrix A) \<and>
                        length A = n \<and> cholesky A = Inr L)"
    and "1 \<le> length (as_iterable upper_t)"
  shows "\<exists>prc. fst (prc_generator self upper_t g) = Inr prc \<and>
           length prc = length (as_iterable upper_t) \<and>
           list_all (\<lambda>row. length row = n) prc"
proof -
  let ?ts = "as_iterable upper_t"
  let ?T = "length ?ts"
  from assms(1) have m: "self_method self = ''GeoBrownian''" by (rule n_dim_Inr_method)
  from assms(1,2,3) m obtain sig where sig: "np_array_sigma sv = Array1 sig" "length sig = n"
    by (auto simp: n_dim_def getitem_def)
  have "\<exists>f. correlation_factor self = Inr f \<and>
          (\<forall>x. length x = n \<and> list_all (\<lambda>row. length row = ?T) x \<longrightarrow>
             (\<exists>eps. times_factor f x = Inr eps \<and> length eps = n \<and>
                list_all (\<lambda>row. length row = ?T) eps))"
  proof (cases "1 < n")
    case False
    then have "correlation_factor self = Inr (Scalar_factor 1)"
      using assms(1) by (simp add: correlation_factor_def)
    then show ?thesis by (simp add: scale_one)
  next
    case True
    with assms(5) obtain A L where rho: "map_of (self_kwargs self) ''rho'' = Some (PyMatrix A)"
      and lenA: "length A = n" and ch: "cholesky A = Inr L"
      by blast
    from cholesky_shape [OF ch] lenA have lenL: "length L = n"
      and rowsL: "list_all (\<lambda>row. length row = n) L" and sq: "is_square A"
      by simp_all
    from sq lenA True have "shape1 A = n"
      by (cases A) (simp_all add: shape1_def is_square_def)
    then have cf: "correlation_factor self = Inr (Matrix_factor L)"
      using assms(1) True rho ch lenA
      by (simp add: correlation_factor_def getitem_def shape0_def)
    have "\<exists>eps. times_factor (Matrix_factor L) x = Inr eps \<and> length eps = n \<and>
                list_all (\<lambda>row. length row = ?T) eps"
      if "length x = n \<and> list_all (\<lambda>row. length row = ?T) x" for x
    proof -
      from that True have "x \<noteq> []" by auto
      moreover from that rowsL have "list_all (\<lambda>row. length row = length x) L" by simp
      ultimately show ?thesis
        using mat_mul_shape [of x L ?T] that lenL by simp
    qed
    with cf show ?thesis by blast
  qed
  then obtain f where cf: "correlation_factor self = Inr f"
    and tf: "\<And>x. length x = n \<Longrightarrow> list_all (\<lambda>row. length row = ?T) x \<Longrightarrow>
             \<exists>eps. times_factor f x = Inr eps \<and> length eps = n \<and>
                list_all (\<lambda>row. length row = ?T) eps"
    by blast
  let ?st = "\<lparr>st_sigma_array = Array1 sig, st_r = PyFloat rv,
              st_t_diff = np_diff_prepend0 ?ts, st_upper_r = f\<rparr>"
  have prep: "prepare self ?ts = Inr ?st"
    using assms(2,4) cf sig(1) by (simp add: prepare_def getitem_def)
  let ?x = "fst (np_random_normal n ?T g)"
  let ?g' = "snd (np_random_normal n ?T g)"
  from np_random_normal_shape [of n ?T g] tf [of ?x]
  obtain eps where eps: "times_factor f ?x = Inr eps" "length eps = n"
    "list_all (\<lambda>row. length row = ?T) eps"
    by blast
  have draw: "draw_shocks n ?st g = (Inr eps, ?g')"
    using eps(1) by (simp add: draw_shocks_def np_diff_length split_beta)
  from eps(3) have eps_td: "list_all (\<lambda>row. length row = length (np_diff_prepend0 ?ts)) eps"
    by (simp add: np_diff_length)
  from evolver_shape [OF sig(2) eps(2) eps_td, of "self_s_0 self" rv]
  obtain prc where run: "fast_sim_loop_geo_brownian (self_s_0 self) n (np_diff_prepend0 ?ts) sig rv eps = Inr prc"
    and len: "length prc = ?T" and cols: "list_all (\<lambda>row. length row = n) prc"
    by (auto simp: np_diff_length)
  have "prc_generator self upper_t g = (Inr prc, ?g')"
    using m prep assms(1) draw run by (simp add: prc_generator_def)
  with len cols show ?thesis by simp
qed


text \<open>
  Claim C8, amended. For a configuration whose \<open>sigma\<close> is a number or a list, whose \<open>r\<close> is
  a number and, when the dimension count \<open>n\<close> exceeds 1, whose \<open>rho\<close> is an \<open>n\<close> by \<open>n\<close>
  \<^verbatim>\<open>numpy.matrix\<close> that the factorisation accepts, and for \<open>T \<ge> 1\<close> evaluation times, the
  simulate call returns an array of exactly \<open>T\<close> rows, each of \<open>n\<close> entries.
\<close>

theorem C8_output_shape:
  assumes "n_dim self = Inr n"
    and "map_of (self_kwargs self) ''sigma'' = Some sv"
    and "(\<exists>v. sv = PyFloat v) \<or> (\<exists>xs. sv = PyList xs)"
    and "map_of (self_kwargs self) ''r'' = Some (PyFloat rv)"
    and "1 < n \<longrightarrow> (\<exists>A L. map_of (self_kwargs self) ''rho'' = Some (PyMatrix A) \<and>
                        length A = n \<and> cholesky A = Inr L)"
    and "1 \<le> length (as_iterable upper_t)"
  shows "\<exists>prc. fst (prc_generator self upper_t g) = Inr prc \<and>
           length prc = length (as_iterable upper_t) \<and>
           list_all (\<lambda>row. length row = n) prc"
  using assms by (rule prc_generator_shape)

text \<open>
  The amended claim at two assets with the identity correlation and three evaluation times, and at
  one asset with a scalar \<open>sigma\<close> and a scalar evaluation time.
\<close>

theorem C8_output_shape_witness:
  "n_dim \<lparr>self_method = ''GeoBrownian'',
          self_kwargs = [(''sigma'', PyList [2 / 10, 2 / 10]), (''r'', PyFloat (3 / 100)),
                         (''rho'', PyMatrix [[1, 0], [0, 1]])],
          self_s_0 = 100, self_n_dim = None\<rparr> = Inr 2 \<and>
   cholesky [[1, 0], [0, 1]] = Inr [[1, 0], [0, 1]] \<and>
   1 \<le> length (as_iterable (Seq [1, 2, 3])) \<and>
   (\<exists>prc. fst (prc_generator \<lparr>self_method = ''GeoBrownian'',
          self_kwargs = [(''sigma'', PyList [2 / 10, 2 / 10]), (''r'', PyFloat (3 / 100)),
                         (''rho'', PyMatrix [[1, 0], [0, 1]])],
          self_s_0 = 100, self_n_dim = None\<rparr> (Seq [1, 2, 3]) (\<lambda>k. 0)) = Inr prc \<and>
      length prc = 3 \<and> list_all (\<lambda>row. length row = 2) prc) \<and>
   n_dim \<lparr>self_method = ''GeoBrownian'',
          self_kwargs = [(''sigma'', PyFloat (4 / 10)), (''r'', PyFloat (3 / 100))],
          self_s_0 = 100, self_n_dim = None\<rparr> = Inr 1 \<and>
   (\<exists>prc. fst (prc_generator \<lparr>self_method = ''GeoBrownian'',
          self_kwargs = [(''sigma'', PyFloat (4 / 10)), (''r'', PyFloat (3 / 100))],
          self_s_0 = 100, self_n_dim = None\<rparr> (Scalar 1) (\<lambda>k. 0)) = Inr prc \<and>
      length prc = 1 \<and> list_all (\<lambda>row. length row = 1) prc)"
proof -
  let ?e2 = "\<lparr>self_method = ''GeoBrownian'',
          self_kwargs = [(''sigma'', PyList [2 / 10, 2 / 10]), (''r'', PyFloat (3 / 100)),
                         (''rho'', PyMatrix [[1, 0], [0, 1]])],
          self_s_0 = 100, self_n_dim = None\<rparr>"
  let ?e1 = "\<lparr>self_method = ''GeoBrownian'',
          self_kwargs = [(''sigma'', PyFloat (4 / 10)), (''r'', PyFloat (3 / 100))],
          self_s_0 = 100, self_n_dim = None\<rparr>"
  have n2: "n_dim ?e2 = Inr 2" by (simp add: n_dim_def getitem_def)
  have s2: "map_of (self_kwargs ?e2) ''sigma'' = Some (PyList [2 / 10, 2 / 10])" by simp
  have k2: "(\<exists>v. PyList [2 / 10, 2 / 10] = PyFloat v) \<or> (\<exists>xs. PyList [2 / 10, 2 / 10] = PyList xs)"
    by blast
  have r2: "map_of (self_kwargs ?e2) ''r'' = Some (PyFloat (3 / 100))" by simp
  have rho2: "1 < (2::nat) \<longrightarrow> (\<exists>A L. map_of (self_kwargs ?e2) ''rho'' = Some (PyMatrix A) \<and>
                        length A = 2 \<and> cholesky A = Inr L)"
    using cholesky_identity2 by simp
  have t2: "1 \<le> length (as_iterable (Seq [1, 2, 3]))" by simp
  have len3: "length (as_iterable (Seq [1, 2, 3])) = 3" by simp
  have a: "\<exists>prc. fst (prc_generator ?e2 (Seq [1, 2, 3]) (\<lambda>k. 0)) = Inr prc \<and>
      length prc = 3 \<and> list_all (\<lambda>row. length row = 2) prc"
    by (rule C8_output_shape [OF n2 s2 k2 r2 rho2 t2, of "\<lambda>k. 0", unfolded len3])
  have n1: "n_dim ?e1 = Inr 1" by (simp add: n_dim_def getitem_def)
  have s1: "map_of (self_kwargs ?e1) ''sigma'' = Some (PyFloat (4 / 10))" by simp
  have k1: "(\<exists>v. PyFloat (4 / 10) = PyFloat v) \<or> (\<exists>xs. PyFloat (4 / 10) = PyList xs)"
    by blast
  have r1: "map_of (self_kwargs ?e1) ''r'' = Some (PyFloat (3 / 100))" by simp
  have rho1: "1 < (1::nat) \<longrightarrow> (\<exists>A L. map_of (self_kwargs ?e1) ''rho'' = Some (PyMatrix A) \<and>
                        length A = 1 \<and> cholesky A = Inr L)"
    by simp
  have t1: "1 \<le> length (as_iterable (Scalar 1))" by simp
  have len1: "length (as_iterable (Scalar 1)) = 1" by simp
  have b: "\<exists>prc. fst (prc_generator ?e1 (Scalar 1) (\<lambda>k. 0)) = Inr prc \<and>
      length prc = 1 \<and> list_all (\<lambda>row. length row = 1) prc"
    by (rule C8_output_shape [OF n1 s1 k1 r1 rho1 t1, of "\<lambda>k. 0", unfolded len1])
  from n2 cholesky_identity2 t2 a n1 b show ?thesis by (intro conjI)
qed

text \<open>
  The factorisation reads the lower triangle only: it accepts a matrix that is not
  symmetric when its lower triangle is that of a positive-definite matrix, and it rejects a
  singular matrix.
\<close>

lemma cholesky_unsymmetric2: "cholesky [[1, 5], [0, 1]] = Inr [[1, 0], [0, 1]]"
  by (simp add: cholesky_def is_square_def numeral_2_eq_2 dot_def Let_def)

lemma cholesky_singular2:
  "cholesky [[1, 1], [1, 1]] = Inl (LinAlgError ''Matrix is not positive definite'')"
  by (simp add: cholesky_def is_square_def numeral_2_eq_2 dot_def Let_def)

text \<open>
  Claim C7 is stated for every correlation matrix that is not positive-semidefinite. The
  matrix \<open>[[1, 5], [0, 1]]\<close> is not: its quadratic form is -3 at \<open>(1, -1)\<close>. It is not
  symmetric either, the factorisation sees the identity in its lower triangle, and the
  simulate call returns a path array.
\<close>

theorem C7_unsymmetric_matrix_accepted:
  "quad_form [[1, 5], [0, 1]] [1, - 1] = - 3 \<and>
   \<not> positive_semidefinite [[1, 5], [0, 1]] \<and>
   (\<exists>prc. fst (prc_generator \<lparr>self_method = ''GeoBrownian'',
          self_kwargs = [(''sigma'', PyList [2 / 10, 2 / 10]), (''r'', PyFloat (3 / 100)),
                         (''rho'', PyMatrix [[1, 5], [0, 1]])],
          self_s_0 = 100, self_n_dim = None\<rparr> (Seq [1, 2]) (\<lambda>k. 0)) = Inr prc \<and>
      length prc = 2 \<and> list_all (\<lambda>row. length row = 2) prc)"
proof -
  let ?e = "\<lparr>self_method = ''GeoBrownian'',
          self_kwargs = [(''sigma'', PyList [2 / 10, 2 / 10]), (''r'', PyFloat (3 / 100)),
                         (''rho'', PyMatrix [[1, 5], [0, 1]])],
          self_s_0 = 100, self_n_dim = None\<rparr>"
  have q: "quad_form [[1, 5], [0, 1]] [1, - 1] = - 3"
    by (simp add: quad_form_def numeral_2_eq_2)
  have npsd: "\<not> positive_semidefinite [[1, 5], [0, 1]]"
  proof
    assume "positive_semidefinite [[1, 5], [0, 1]]"
    then have "0 \<le> quad_form [[1, 5], [0, 1]] [1, - 1]"
      by (simp add: positive_semidefinite_def)
    with q show False by simp
  qed
  have n: "n_dim ?e = Inr 2" by (simp add: n_dim_def getitem_def)
  have sg: "map_of (self_kwargs ?e) ''sigma'' = Some (PyList [2 / 10, 2 / 10])" by simp
  have k: "(\<exists>v. PyList [2 / 10, 2 / 10] = PyFloat v) \<or> (\<exists>xs. PyList [2 / 10, 2 / 10] = PyList xs)"
    by blast
  have r: "map_of (self_kwargs ?e) ''r'' = Some (PyFloat (3 / 100))" by simp
  have rho: "1 < (2::nat) \<longrightarrow> (\<exists>A L. map_of (self_kwargs ?e) ''rho'' = Some (PyMatrix A) \<and>
                        length A = 2 \<and> cholesky A = Inr L)"
    using cholesky_unsymmetric2 by simp
  have t: "1 \<le> length (as_iterable (Seq [1, 2]))" by simp
  have len: "length (as_iterable (Seq [1, 2])) = 2" by simp
  have run: "\<exists>prc. fst (prc_generator ?e (Seq [1, 2]) (\<lambda>k. 0)) = Inr prc \<and>
      length prc = 2 \<and> list_all (\<lambda>row. length row = 2) prc"
    by (rule prc_generator_shape [OF n sg k r rho t, of "\<lambda>k. 0", unfolded len])
  from q npsd run show ?thesis by (intro conjI)
qed

text \<open>
  Claim C8 is stated for every valid configuration. With the tuple \<open>(0.2, 0.3)\<close> as \<open>sigma\<close>
  the dimension count is 1 and the returned row has two entries. With the correlation
  \<open>[[1, 1], [1, 1]]\<close>, symmetric and positive-semidefinite, the factorisation fails and no
  array is returned.
\<close>

theorem C8_columns_differ_or_no_array:
  "n_dim \<lparr>self_method = ''GeoBrownian'',
          self_kwargs = [(''sigma'', PyTuple [2 / 10, 3 / 10]), (''r'', PyFloat (3 / 100))],
          self_s_0 = 100, self_n_dim = None\<rparr> = Inr 1 \<and>
   fst (prc_generator \<lparr>self_method = ''GeoBrownian'',
          self_kwargs = [(''sigma'', PyTuple [2 / 10, 3 / 10]), (''r'', PyFloat (3 / 100))],
          self_s_0 = 100, self_n_dim = None\<rparr> (Scalar 1) (\<lambda>k. 0)) =
     Inr [[Some (100 * exp (1 / 100)), Some (100 * exp (- (3 / 200)))]] \<and>
   symmetric [[1, 1], [1, 1]] \<and> positive_semidefinite [[1, 1], [1, 1]] \<and>
   n_dim \<lparr>self_method = ''GeoBrownian'',
          self_kwargs = [(''sigma'', PyList [2 / 10, 2 / 10]), (''r'', PyFloat (3 / 100)),
                         (''rho'', PyMatrix [[1, 1], [1, 1]])],
          self_s_0 = 100, self_n_dim = None\<rparr> = Inr 2 \<and>
   prc_generator \<lparr>self_method = ''GeoBrownian'',
          self_kwargs = [(''sigma'', PyList [2 / 10, 2 / 10]), (''r'', PyFloat (3 / 100)),
                         (''rho'', PyMatrix [[1, 1], [1, 1]])],
          self_s_0 = 100, self_n_dim = None\<rparr> (Scalar 1) (\<lambda>k. 0) =
     (Inl (LinAlgError ''Matrix is not positive definite''), (\<lambda>k. 0))"
proof -
  let ?e1 = "\<lparr>self_method = ''GeoBrownian'',
          self_kwargs = [(''sigma'', PyTuple [2 / 10, 3 / 10]), (''r'', PyFloat (3 / 100))],
          self_s_0 = 100, self_n_dim = None\<rparr>"
  let ?e2 = "\<lparr>self_method = ''GeoBrownian'',
          self_kwargs = [(''sigma'', PyList [2 / 10, 2 / 10]), (''r'', PyFloat (3 / 100)),
                         (''rho'', PyMatrix [[1, 1], [1, 1]])],
          self_s_0 = 100, self_n_dim = None\<rparr>"
  have n1: "n_dim ?e1 = Inr 1" by (simp add: n_dim_def getitem_def)
  have cf1: "correlation_factor ?e1 = Inr (Scalar_factor 1)"
    using n1 by (simp add: correlation_factor_def)
  have prep1: "prepare ?e1 (as_iterable (Scalar 1)) =
      Inr \<lparr>st_sigma_array = Array1 [2 / 10, 3 / 10], st_r = PyFloat (3 / 100),
           st_t_diff = [1], st_upper_r = Scalar_factor 1\<rparr>"
    using cf1 by (simp add: prepare_def getitem_def np_diff_prepend0_def)
  have draw1: "draw_shocks 1 \<lparr>st_sigma_array = Array1 [2 / 10, 3 / 10], st_r = PyFloat (3 / 100),
           st_t_diff = [1], st_upper_r = Scalar_factor 1\<rparr> (\<lambda>k. 0) = (Inr [[0]], (\<lambda>k. 0))"
    by (simp add: draw_shocks_def np_random_normal_def)
  have loop1: "fast_sim_loop_geo_brownian 100 1 [1] [2 / 10, 3 / 10] (3 / 100) [[0]] =
      Inr [[Some (100 * exp (1 / 100)), Some (100 * exp (- (3 / 200)))]]"
    by (simp add: fast_sim_loop_geo_brownian_def column_def gbm_step_def broadcast_def
        np_sqrt_def power2_eq_square)
  have run1: "fst (prc_generator ?e1 (Scalar 1) (\<lambda>k. 0)) =
      Inr [[Some (100 * exp (1 / 100)), Some (100 * exp (- (3 / 200)))]]"
    unfolding prc_generator_def using prep1 n1 draw1 loop1 by simp
  have sym: "symmetric [[1, 1], [1, 1]]"
    by (simp add: symmetric_def is_square_def upt_conv_Cons numeral_2_eq_2)
  have psd: "positive_semidefinite [[1, 1], [1, 1]]"
    unfolding positive_semidefinite_def
  proof (intro allI impI)
    fix x :: "real list"
    assume "length x = length [[1, 1], [1, 1 :: real]]"
    have "quad_form [[1, 1], [1, 1]] x = (x ! 0 + x ! 1)\<^sup>2"
      by (simp add: quad_form_def numeral_2_eq_2 power2_eq_square algebra_simps)
    then show "0 \<le> quad_form [[1, 1], [1, 1]] x" by simp
  qed
  have n2: "n_dim ?e2 = Inr 2" by (simp add: n_dim_def getitem_def)
  have "correlation_factor ?e2 = Inl (LinAlgError ''Matrix is not positive definite'')"
    using n2 cholesky_singular2 by (simp add: correlation_factor_def getitem_def)
  then have "prepare ?e2 (as_iterable (Scalar 1)) = Inl (LinAlgError ''Matrix is not positive definite'')"
    by (simp add: prepare_def getitem_def)
  then have run2: "prc_generator ?e2 (Scalar 1) (\<lambda>k. 0) =
      (Inl (LinAlgError ''Matrix is not positive definite''), (\<lambda>k. 0))"
    by (simp add: prc_generator_prepare_error)
  from n1 run1 sym psd n2 run2 show ?thesis by (intro conjI)
qed

end
